theory Spec2Isabelle
  imports Main "HOL-Library.Word"
begin

section \<open>JavaScript strings\<close>

text \<open>
  A JavaScript string is a sequence of UTF-16 code units.  String literals of the source
  that are plain ASCII are written with \<open>lit\<close>.
\<close>

type_synonym code_unit = "16 word"
type_synonym jsstring = "code_unit list"

definition lit :: "string \<Rightarrow> jsstring" where
  "lit s = map (\<lambda>c. of_nat (of_char c)) s"

text \<open>\<open>String.prototype.startsWith\<close>, \<open>includes\<close> (here \<open>includes_str\<close>) and \<open>endsWith\<close>, on code units.\<close>

fun startsWith :: "jsstring \<Rightarrow> jsstring \<Rightarrow> bool" where
  "startsWith s [] = True"
| "startsWith [] (p # ps) = False"
| "startsWith (c # cs) (p # ps) = (c = p \<and> startsWith cs ps)"

fun includes_str :: "jsstring \<Rightarrow> jsstring \<Rightarrow> bool" where
  "includes_str [] t = (t = [])"
| "includes_str (c # cs) t = (startsWith (c # cs) t \<or> includes_str cs t)"

definition endsWith :: "jsstring \<Rightarrow> jsstring \<Rightarrow> bool" where
  "endsWith s t = startsWith (rev s) (rev t)"

subsection \<open>Case conversion and canonical decomposition\<close>

text \<open>
  \<open>toLowerCase\<close> and \<open>normalize("NFD")\<close> are built-ins of the language, defined by the
  Unicode character database.  They are modelled here on a fragment of Unicode: Basic
  Latin and Latin-1 Supplement (U+0000 to U+00FF), the Combining Diacritical Marks
  (U+0300 to U+036F) and, as two marks from outside that block, the Hebrew accent
  etnahta U+0591 and the Hebrew point sheva U+05B0.  On this fragment the lower-case
  mapping, the canonical decompositions and the canonical combining classes below are
  those of the character database.  Every other code unit is treated as a caseless
  starter without decomposition; the model makes no statement about strings that
  contain one.
\<close>

definition modelled_unit :: "code_unit \<Rightarrow> bool" where
  "modelled_unit c = (c \<le> 0xFF \<or> (0x300 \<le> c \<and> c \<le> 0x36F) \<or> c = 0x591 \<or> c = 0x5B0)"

definition lower_unit :: "code_unit \<Rightarrow> code_unit" where
  "lower_unit c =
     (if (0x41 \<le> c \<and> c \<le> 0x5A) \<or> (0xC0 \<le> c \<and> c \<le> 0xDE \<and> c \<noteq> 0xD7)
      then c + 0x20 else c)"

definition toLowerCase :: "jsstring \<Rightarrow> jsstring" where
  "toLowerCase s = map lower_unit s"

definition canonical_decompositions :: "(code_unit \<times> jsstring) list" where
  "canonical_decompositions = [
    (0xC0, [0x41, 0x300]), (0xC1, [0x41, 0x301]), (0xC2, [0x41, 0x302]), (0xC3, [0x41, 0x303]),
    (0xC4, [0x41, 0x308]), (0xC5, [0x41, 0x30A]), (0xC7, [0x43, 0x327]), (0xC8, [0x45, 0x300]),
    (0xC9, [0x45, 0x301]), (0xCA, [0x45, 0x302]), (0xCB, [0x45, 0x308]), (0xCC, [0x49, 0x300]),
    (0xCD, [0x49, 0x301]), (0xCE, [0x49, 0x302]), (0xCF, [0x49, 0x308]), (0xD1, [0x4E, 0x303]),
    (0xD2, [0x4F, 0x300]), (0xD3, [0x4F, 0x301]), (0xD4, [0x4F, 0x302]), (0xD5, [0x4F, 0x303]),
    (0xD6, [0x4F, 0x308]), (0xD9, [0x55, 0x300]), (0xDA, [0x55, 0x301]), (0xDB, [0x55, 0x302]),
    (0xDC, [0x55, 0x308]), (0xDD, [0x59, 0x301]), (0xE0, [0x61, 0x300]), (0xE1, [0x61, 0x301]),
    (0xE2, [0x61, 0x302]), (0xE3, [0x61, 0x303]), (0xE4, [0x61, 0x308]), (0xE5, [0x61, 0x30A]),
    (0xE7, [0x63, 0x327]), (0xE8, [0x65, 0x300]), (0xE9, [0x65, 0x301]), (0xEA, [0x65, 0x302]),
    (0xEB, [0x65, 0x308]), (0xEC, [0x69, 0x300]), (0xED, [0x69, 0x301]), (0xEE, [0x69, 0x302]),
    (0xEF, [0x69, 0x308]), (0xF1, [0x6E, 0x303]), (0xF2, [0x6F, 0x300]), (0xF3, [0x6F, 0x301]),
    (0xF4, [0x6F, 0x302]), (0xF5, [0x6F, 0x303]), (0xF6, [0x6F, 0x308]), (0xF9, [0x75, 0x300]),
    (0xFA, [0x75, 0x301]), (0xFB, [0x75, 0x302]), (0xFC, [0x75, 0x308]), (0xFD, [0x79, 0x301]),
    (0xFF, [0x79, 0x308]), (0x340, [0x300]), (0x341, [0x301]), (0x343, [0x313]),
    (0x344, [0x308, 0x301])]"

text \<open>No code unit below U+00C0 has a decomposition; the others are looked up.\<close>

definition decompose :: "code_unit \<Rightarrow> jsstring" where
  "decompose c =
     (if c < 0xC0 then [c]
      else (case map_of canonical_decompositions c of Some d \<Rightarrow> d | None \<Rightarrow> [c]))"

text \<open>Canonical combining classes, as ranges \<open>(first, last, class)\<close>; class 0 elsewhere.\<close>

definition combining_classes :: "(code_unit \<times> code_unit \<times> nat) list" where
  "combining_classes = [
    (0x300, 0x314, 230), (0x315, 0x315, 232), (0x316, 0x319, 220), (0x31A, 0x31A, 232),
    (0x31B, 0x31B, 216), (0x31C, 0x320, 220), (0x321, 0x322, 202), (0x323, 0x326, 220),
    (0x327, 0x328, 202), (0x329, 0x333, 220), (0x334, 0x338, 1), (0x339, 0x33C, 220),
    (0x33D, 0x344, 230), (0x345, 0x345, 240), (0x346, 0x346, 230), (0x347, 0x349, 220),
    (0x34A, 0x34C, 230), (0x34D, 0x34E, 220), (0x350, 0x352, 230), (0x353, 0x356, 220),
    (0x357, 0x357, 230), (0x358, 0x358, 232), (0x359, 0x35A, 220), (0x35B, 0x35B, 230),
    (0x35C, 0x35C, 233), (0x35D, 0x35E, 234), (0x35F, 0x35F, 233), (0x360, 0x361, 234),
    (0x362, 0x362, 233), (0x363, 0x36F, 230), (0x591, 0x591, 220), (0x5B0, 0x5B0, 10)]"

fun class_in :: "(code_unit \<times> code_unit \<times> nat) list \<Rightarrow> code_unit \<Rightarrow> nat" where
  "class_in [] c = 0"
| "class_in ((lo, hi, k) # rs) c = (if lo \<le> c \<and> c \<le> hi then k else class_in rs c)"

definition ccc :: "code_unit \<Rightarrow> nat" where
  "ccc c = (if c < 0x300 then 0 else class_in combining_classes c)"

text \<open>
  The canonical ordering algorithm: within every run of non-starters, a mark moves behind
  the marks of strictly smaller class that follow it; marks of equal class keep their
  order, and a starter (class 0) is never crossed.
\<close>

fun reorder_insert :: "code_unit \<Rightarrow> jsstring \<Rightarrow> jsstring" where
  "reorder_insert c [] = [c]"
| "reorder_insert c (d # ds) =
     (if ccc d \<noteq> 0 \<and> ccc d < ccc c then d # reorder_insert c ds else c # d # ds)"

fun canonical_order :: "jsstring \<Rightarrow> jsstring" where
  "canonical_order [] = []"
| "canonical_order (c # cs) = reorder_insert c (canonical_order cs)"

definition normalizeNFD :: "jsstring \<Rightarrow> jsstring" where
  "normalizeNFD s = canonical_order (concat (map decompose s))"

section \<open>Text normalizer and file classifier\<close>

text \<open>
  The character class of the regular expression, U+0300 to U+036F; replacing every match
  by the empty string deletes every code unit of the class.
\<close>

definition is_mark :: "code_unit \<Rightarrow> bool" where
  "is_mark c = (0x300 \<le> c \<and> c \<le> 0x36F)"

definition strip_marks :: "jsstring \<Rightarrow> jsstring" where
  "strip_marks s = filter (\<lambda>c. \<not> is_mark c) s"

definition normalizeText :: "jsstring \<Rightarrow> jsstring" where
  "normalizeText text = strip_marks (normalizeNFD (toLowerCase text))"

text \<open>A \<open>File\<close>: its name, its MIME type and its size in bytes.\<close>

record jsfile =
  name :: jsstring
  ftype :: jsstring
  fsize :: nat

datatype doc_class = ADMIN | TECH | UNKNOWN

definition classifyFile :: "jsfile \<Rightarrow> doc_class" where
  "classifyFile f =
     (let nm = normalizeText (name f) in
      if includes_str nm (lit ''pcap'') \<or>
         includes_str nm (lit ''admin'') \<or>
         includes_str nm (lit ''clausula'') \<or>
         includes_str nm (lit ''juridico'') \<or>
         includes_str nm (lit ''caratula'')
      then ADMIN
      else if includes_str nm (lit ''ppt'') \<or>
         includes_str nm (lit ''tecnic'') \<or>
         includes_str nm (lit ''prescrip'') \<or>
         includes_str nm (lit ''memoria'') \<or>
         includes_str nm (lit ''proyecto'')
      then TECH
      else UNKNOWN)"

text \<open>The keyword sets of the specification, for comparison with \<open>classifyFile\<close>.\<close>

definition admin_keywords :: "jsstring list" where
  "admin_keywords =
     [lit ''pcap'', lit ''admin'', lit ''clausula'', lit ''juridico'', lit ''caratula'']"

definition tech_keywords :: "jsstring list" where
  "tech_keywords =
     [lit ''ppt'', lit ''tecnic'', lit ''prescrip'', lit ''memoria'', lit ''proyecto'']"

section \<open>Relevance filter\<close>

definition isRelevantLink :: "jsstring \<Rightarrow> bool" where
  "isRelevantLink url =
     (let lower = toLowerCase url in
      if startsWith lower (lit ''mailto:'') then False
      else if includes_str lower (lit ''google.com'') \<or> includes_str lower (lit ''facebook'') \<or>
              includes_str lower (lit ''twitter'') \<or> includes_str lower (lit ''linkedin'') then False
      else if includes_str lower (lit ''maps.'') \<or> includes_str lower (lit ''youtube'') then False
      else True)"

section \<open>Auxiliary predicates\<close>

text \<open>
  A string is canonically ordered when no mark is directly followed by a mark of smaller
  non-zero class; a code unit is inert when lower-casing and decomposition leave it alone.
\<close>

fun ordered_marks :: "jsstring \<Rightarrow> bool" where
  "ordered_marks [] = True"
| "ordered_marks [c] = True"
| "ordered_marks (c # d # ds) = ((ccc d = 0 \<or> ccc c \<le> ccc d) \<and> ordered_marks (d # ds))"

definition inert_unit :: "code_unit \<Rightarrow> bool" where
  "inert_unit c = (lower_unit c = c \<and> decompose c = [c])"

section \<open>Exceptions and the network\<close>

text \<open>
  A thrown exception or a rejected promise is the value \<open>Inl e\<close>; a normal result is
  \<open>Inr v\<close>.
\<close>

datatype js_error =
  TypeError | AbortError | URIError | SyntaxError | ReadError | ServiceError | JsError string

text \<open>
  A \<open>Blob\<close> as the code observes it: its MIME type, its size in bytes and the text that
  \<open>blob.text()\<close> resolves to (or the error it rejects with).
\<close>

record blob =
  btype :: jsstring
  bsize :: nat
  btext :: "js_error + jsstring"

text \<open>
  A \<open>Response\<close>: the \<open>ok\<close> flag, the \<open>Content-Disposition\<close> header (\<open>None\<close> when
  \<open>headers.get\<close> answers null) and the body that \<open>response.blob()\<close> resolves to.
  \<open>response.text()\<close> reads the same body as text.
\<close>

record response =
  ok :: bool
  content_disposition :: "jsstring option"
  body :: "js_error + blob"

definition response_text :: "response \<Rightarrow> js_error + jsstring" where
  "response_text r = (case body r of Inl e \<Rightarrow> Inl e | Inr b \<Rightarrow> btext b)"

text \<open>
  The network answers a \<open>fetch\<close> of a URL with a response, or the fetch rejects: with a
  network error, or with \<open>AbortError\<close> when the 10 second timer aborts it.
\<close>

type_synonym network = "jsstring \<Rightarrow> js_error + response"

subsection \<open>\<open>encodeURIComponent\<close>\<close>

text \<open>
  The built-in leaves the unreserved characters alone and writes every other code point
  as the percent-escaped bytes of its UTF-8 encoding; it throws \<open>URIError\<close> on an
  unpaired surrogate.
\<close>

definition uri_unreserved :: "code_unit \<Rightarrow> bool" where
  "uri_unreserved c =
     ((0x41 \<le> c \<and> c \<le> 0x5A) \<or> (0x61 \<le> c \<and> c \<le> 0x7A) \<or> (0x30 \<le> c \<and> c \<le> 0x39) \<or>
      c \<in> set (lit ''-_.!~*()'') \<or> c = 0x27)"

definition is_lead :: "code_unit \<Rightarrow> bool" where
  "is_lead c = (0xD800 \<le> c \<and> c \<le> 0xDBFF)"

definition is_trail :: "code_unit \<Rightarrow> bool" where
  "is_trail c = (0xDC00 \<le> c \<and> c \<le> 0xDFFF)"

definition code_point :: "code_unit \<Rightarrow> code_unit \<Rightarrow> nat" where
  "code_point hi lo = (unat hi - 0xD800) * 0x400 + (unat lo - 0xDC00) + 0x10000"

definition utf8 :: "nat \<Rightarrow> nat list" where
  "utf8 cp =
     (if cp < 0x80 then [cp]
      else if cp < 0x800 then [0xC0 + cp div 0x40, 0x80 + cp mod 0x40]
      else if cp < 0x10000 then
        [0xE0 + cp div 0x1000, 0x80 + cp div 0x40 mod 0x40, 0x80 + cp mod 0x40]
      else [0xF0 + cp div 0x40000, 0x80 + cp div 0x1000 mod 0x40,
            0x80 + cp div 0x40 mod 0x40, 0x80 + cp mod 0x40])"

definition hex_digit :: "nat \<Rightarrow> code_unit" where
  "hex_digit d = (if d < 10 then 0x30 + of_nat d else 0x41 + of_nat (d - 10))"

definition percent :: "nat list \<Rightarrow> jsstring" where
  "percent bytes = concat (map (\<lambda>b. [0x25, hex_digit (b div 16), hex_digit (b mod 16)]) bytes)"

definition prepend :: "jsstring \<Rightarrow> js_error + jsstring \<Rightarrow> js_error + jsstring" where
  "prepend s r = (case r of Inl e \<Rightarrow> Inl e | Inr t \<Rightarrow> Inr (s @ t))"

fun encodeURIComponent :: "jsstring \<Rightarrow> js_error + jsstring" where
  "encodeURIComponent [] = Inr []"
| "encodeURIComponent [c] =
     (if uri_unreserved c then Inr [c]
      else if is_lead c \<or> is_trail c then Inl URIError
      else Inr (percent (utf8 (unat c))))"
| "encodeURIComponent (c # d # ds) =
     (if uri_unreserved c then prepend [c] (encodeURIComponent (d # ds))
      else if is_lead c then
        (if is_trail d then prepend (percent (utf8 (code_point c d))) (encodeURIComponent ds)
         else Inl URIError)
      else if is_trail c then Inl URIError
      else prepend (percent (utf8 (unat c))) (encodeURIComponent (d # ds)))"

subsection \<open>Decimal rendering of the time stamp\<close>

fun digits :: "nat \<Rightarrow> jsstring" where
  "digits n = (if n < 10 then [0x30 + of_nat n] else digits (n div 10) @ [0x30 + of_nat (n mod 10)])"

definition number_string :: "int \<Rightarrow> jsstring" where
  "number_string i = (if i < 0 then lit ''-'' @ digits (nat (- i)) else digits (nat i))"

section \<open>Single-URL downloader\<close>

text \<open>
  The payload check of \<open>tryDownload\<close>: the markers of an interstitial page in the text
  of the body.  When \<open>blob.text()\<close> rejects, the inner \<open>catch\<close> swallows the error and
  nothing is found.
\<close>

definition error_page_text :: "blob \<Rightarrow> bool" where
  "error_page_text b =
     (case btext b of
        Inl e \<Rightarrow> False
      | Inr text \<Rightarrow> includes_str text (lit ''<html'') \<or> includes_str text (lit ''Error'') \<or>
          includes_str text (lit ''Denied''))"

text \<open>
  The regular expression \<open>filename=['"]?([^'"]+)['"]?\<close>: at the leftmost occurrence of
  \<open>filename=\<close> that is followed, after at most one quote, by a character that is not a
  quote, the capture is the longest run of such characters.
\<close>

definition is_quote :: "code_unit \<Rightarrow> bool" where
  "is_quote c = (c = 0x27 \<or> c = 0x22)"

fun match_filename :: "jsstring \<Rightarrow> jsstring option" where
  "match_filename [] = None"
| "match_filename (c # cs) =
     (if startsWith (c # cs) (lit ''filename='') then
        (let rest = drop 9 (c # cs);
             unquoted = (case rest of [] \<Rightarrow> [] | q # r \<Rightarrow> if is_quote q then r else rest);
             capture = takeWhile (\<lambda>x. \<not> is_quote x) unquoted
         in if capture \<noteq> [] then Some capture else match_filename cs)
      else match_filename cs)"

definition disposition_filename :: "jsstring option \<Rightarrow> jsstring" where
  "disposition_filename disposition =
     (case disposition of
        None \<Rightarrow> []
      | Some d \<Rightarrow>
          if d \<noteq> [] \<and> includes_str d (lit ''filename='') then
            (case match_filename d of Some m \<Rightarrow> m | None \<Rightarrow> [])
          else [])"

text \<open>
  The body of the \<open>try\<close> block of \<open>tryDownload\<close>: \<open>Inl\<close> when the fetch or the body read
  rejects, \<open>Inr None\<close> for the \<open>return null\<close> exits, \<open>Inr (Some (blob, filename))\<close>
  otherwise.  The wait for the body has no timer, the timer being cleared once the
  response headers have arrived; a body that never ends is outside this model.
\<close>

definition tryDownload_body :: "network \<Rightarrow> jsstring \<Rightarrow> js_error + (blob \<times> jsstring) option" where
  "tryDownload_body net fetchUrl =
     (case net fetchUrl of
        Inl e \<Rightarrow> Inl e
      | Inr response \<Rightarrow>
          if \<not> ok response then Inr None
          else
            (case body response of
               Inl e \<Rightarrow> Inl e
             | Inr b \<Rightarrow>
                 (let accepted = Inr (Some (b, disposition_filename (content_disposition response)))
                  in if includes_str (btype b) (lit ''text/html'') \<or> bsize b < 2000 then
                       (if error_page_text b then Inr None
                        else if includes_str (btype b) (lit ''text/html'') then Inr None
                        else accepted)
                     else accepted)))"

definition tryDownload :: "network \<Rightarrow> jsstring \<Rightarrow> (blob \<times> jsstring) option" where
  "tryDownload net fetchUrl =
     (case tryDownload_body net fetchUrl of Inl e \<Rightarrow> None | Inr r \<Rightarrow> r)"

text \<open>
  The \<open>File\<close> constructor keeps the name and the bytes; its \<open>type\<close> option becomes the
  empty string when it has a code unit outside U+0020 to U+007E and is converted to ASCII
  lower case otherwise.
\<close>

definition file_type :: "jsstring \<Rightarrow> jsstring" where
  "file_type t =
     (if list_ex (\<lambda>c. c < 0x20 \<or> 0x7E < c) t then []
      else map (\<lambda>c. if 0x41 \<le> c \<and> c \<le> 0x5A then c + 0x20 else c) t)"

definition new_File :: "blob \<Rightarrow> jsstring \<Rightarrow> jsfile" where
  "new_File b nm = \<lparr>name = nm, ftype = file_type (btype b), fsize = bsize b\<rparr>"

definition extension_for :: "blob \<Rightarrow> jsstring \<Rightarrow> jsstring" where
  "extension_for b filename =
     (if filename \<noteq> [] \<and> includes_str filename (lit ''.'') then lit ''.pdf''
      else if btype b = lit ''application/pdf'' then lit ''.pdf''
      else if includes_str (btype b) (lit ''zip'') then lit ''.zip''
      else if includes_str (btype b) (lit ''word'') then lit ''.docx''
      else lit ''.pdf'')"

definition final_name :: "int \<Rightarrow> jsstring \<Rightarrow> blob \<Rightarrow> jsstring \<Rightarrow> jsstring" where
  "final_name now defaultPrefix b filename =
     (if filename \<noteq> [] then filename
      else defaultPrefix @ lit ''_'' @ number_string now @ extension_for b filename)"

text \<open>
  One run of \<open>downloadFileFromUrl\<close>: the fetches it issues, in order, and its outcome
  (\<open>Inl\<close>: an exception leaves the function; \<open>Inr None\<close>: it returns null).  \<open>now\<close> is
  the value of \<open>new Date().getTime()\<close> when the file is named.
\<close>

record download_run =
  fetched :: "jsstring list"
  outcome :: "js_error + jsfile option"

definition returns :: "jsstring list \<Rightarrow> jsfile option \<Rightarrow> download_run" where
  "returns fs r = \<lparr>fetched = fs, outcome = Inr r\<rparr>"

text \<open>The \<open>try\<close> block of \<open>downloadFileFromUrl\<close>; \<open>Inl\<close> is an exception thrown inside it.\<close>

definition download_attempts ::
  "network \<Rightarrow> int \<Rightarrow> jsstring \<Rightarrow> jsstring \<Rightarrow> js_error + (jsstring list \<times> jsfile option)" where
  "download_attempts net now url defaultPrefix =
     (case encodeURIComponent url of
        Inl e \<Rightarrow> Inl e
      | Inr enc \<Rightarrow>
          (let proxyUrl = lit ''https://corsproxy.io/?'' @ enc;
               aoUrl = lit ''https://api.allorigins.win/raw?url='' @ enc;
               first = tryDownload net proxyUrl;
               fetches = (if first = None then [proxyUrl, aoUrl] else [proxyUrl]);
               result = (if first = None then tryDownload net aoUrl else first)
           in case result of
                None \<Rightarrow> Inr (fetches, None)
              | Some (b, filename) \<Rightarrow>
                  Inr (fetches, Some (new_File b (final_name now defaultPrefix b filename)))))"

definition downloadFileFromUrl ::
  "network \<Rightarrow> int \<Rightarrow> jsstring \<Rightarrow> jsstring \<Rightarrow> download_run" where
  "downloadFileFromUrl net now url defaultPrefix =
     (if url = [] \<or> \<not> startsWith url (lit ''http'') then returns [] None
      else
        (case download_attempts net now url defaultPrefix of
           Inl e \<Rightarrow> returns [] None
         | Inr (fetches, r) \<Rightarrow> returns fetches r))"

text \<open>
  The specification's notion of an HTTP(S) URL, for comparison with the prefix test of
  \<open>downloadFileFromUrl\<close>: the scheme, read without regard to case, is \<open>http\<close> or
  \<open>https\<close>.
\<close>

definition is_http_url :: "jsstring \<Rightarrow> bool" where
  "is_http_url url =
     (startsWith (toLowerCase url) (lit ''http://'') \<or>
      startsWith (toLowerCase url) (lit ''https://''))"

subsection \<open>Example responses\<close>

definition pdf_response :: response where
  "pdf_response =
     \<lparr>ok = True, content_disposition = None,
      body = Inr \<lparr>btype = lit ''application/pdf'', bsize = 3000, btext = Inr (lit ''%PDF-1.7'')\<rparr>\<rparr>"

definition html_response :: response where
  "html_response =
     \<lparr>ok = True, content_disposition = None,
      body = Inr \<lparr>btype = lit ''text/html'', bsize = 500,
        btext = Inr (lit ''<html><body>Please verify you are human</body></html>'')\<rparr>\<rparr>"

text \<open>
  A network on which the first relay serves \<open>pdf_response\<close> for
  \<open>https://example.org/pliego\<close>, both relays serve \<open>html_response\<close> for
  \<open>https://example.org/blocked\<close>, and every other fetch fails.
\<close>

definition example_network :: network where
  "example_network u =
     (if u = lit ''https://corsproxy.io/?https%3A%2F%2Fexample.org%2Fpliego'' then Inr pdf_response
      else if u = lit ''https://corsproxy.io/?https%3A%2F%2Fexample.org%2Fblocked'' \<or>
              u = lit ''https://api.allorigins.win/raw?url=https%3A%2F%2Fexample.org%2Fblocked''
      then Inr html_response
      else Inl TypeError)"

section \<open>Batch link prober\<close>

text \<open>
  The environment of a probing run: the network, and for every URL the time stamp at which
  its download is named.
\<close>

record probe_env =
  env_net :: network
  env_clock :: "jsstring \<Rightarrow> int"

definition probeAndDownloadLink ::
  "probe_env \<Rightarrow> jsstring \<Rightarrow> js_error + (jsfile \<times> doc_class) option" where
  "probeAndDownloadLink env url =
     (if \<not> isRelevantLink url then Inr None
      else
        (case outcome (downloadFileFromUrl (env_net env) (env_clock env url) url (lit ''doc'')) of
           Inl e \<Rightarrow> Inl e
         | Inr None \<Rightarrow> Inr None
         | Inr (Some f) \<Rightarrow> Inr (Some (f, classifyFile f))))"

text \<open>
  A \<open>Set\<close> keeps its elements in insertion order, and \<open>Array.from\<close> lists them in that
  order: every link stays at the place of its first occurrence.
\<close>

definition set_add :: "jsstring list \<Rightarrow> jsstring \<Rightarrow> jsstring list" where
  "set_add s x = (if x \<in> set s then s else s @ [x])"

definition new_Set :: "jsstring list \<Rightarrow> jsstring list" where
  "new_Set xs = foldl set_add [] xs"

definition slice :: "'a list \<Rightarrow> nat \<Rightarrow> nat \<Rightarrow> 'a list" where
  "slice xs i j = take (j - i) (drop i xs)"

text \<open>
  \<open>Promise.all\<close> resolves to the list of the results when every promise resolves, and
  rejects when one of them rejects (here: with the error of the first in the list).
\<close>

fun promise_all :: "(js_error + 'a) list \<Rightarrow> js_error + 'a list" where
  "promise_all [] = Inr []"
| "promise_all (Inl e # ps) = Inl e"
| "promise_all (Inr v # ps) = (case promise_all ps of Inl e \<Rightarrow> Inl e | Inr vs \<Rightarrow> Inr (v # vs))"

text \<open>
  The state of a run: the two result slots, the counter \<open>processed\<close>, and as a record of
  its effects the groups of URLs issued so far and the arguments of the progress calls.
\<close>

record probe_state =
  admin :: "jsfile option"
  tech :: "jsfile option"
  processed :: nat
  issued :: "jsstring list list"
  progress :: "(nat \<times> nat) list"

definition BATCH_SIZE :: nat where
  "BATCH_SIZE = 4"

text \<open>The body of the inner loop, for one probe result.\<close>

definition assign_result :: "probe_state \<Rightarrow> (jsfile \<times> doc_class) option \<Rightarrow> probe_state" where
  "assign_result st res =
     (case res of
        None \<Rightarrow> st
      | Some (f, ty) \<Rightarrow>
          if ty = ADMIN \<and> admin st = None then st\<lparr>admin := Some f\<rparr>
          else if ty = TECH \<and> tech st = None then st\<lparr>tech := Some f\<rparr>
          else if ty = UNKNOWN then
            (if admin st = None then st\<lparr>admin := Some f\<rparr>
             else if tech st = None then st\<lparr>tech := Some f\<rparr>
             else st)
          else st)"

text \<open>
  The part of the outer loop's body that follows the \<open>await\<close>: the inner loop over the
  results of the group, the counter, and the progress call.
\<close>

definition after_batch ::
  "nat \<Rightarrow> probe_state \<Rightarrow> jsstring list \<Rightarrow> (jsfile \<times> doc_class) option list \<Rightarrow> probe_state" where
  "after_batch totalLinks st batch batchResults =
     (let st1 = foldl assign_result (st\<lparr>issued := issued st @ [batch]\<rparr>) batchResults;
          st2 = st1\<lparr>processed := processed st1 + length batch\<rparr>
      in st2\<lparr>progress := progress st2 @ [(min (processed st2) totalLinks, totalLinks)]\<rparr>)"

function probe_loop ::
  "probe_env \<Rightarrow> jsstring list \<Rightarrow> nat \<Rightarrow> probe_state \<Rightarrow> js_error + probe_state" where
  "probe_loop env uniqueLinks i st =
     (if i < length uniqueLinks then
        (if admin st \<noteq> None \<and> tech st \<noteq> None then Inr st
         else
           (let batch = slice uniqueLinks i (i + BATCH_SIZE) in
            case promise_all (map (probeAndDownloadLink env) batch) of
              Inl e \<Rightarrow> Inl e
            | Inr batchResults \<Rightarrow>
                probe_loop env uniqueLinks (i + BATCH_SIZE)
                  (after_batch (length uniqueLinks) st batch batchResults)))
      else Inr st)"
  by pat_completeness auto
termination
  by (relation "measure (\<lambda>(env, uniqueLinks, i, st). length uniqueLinks - i)")
     (auto simp: BATCH_SIZE_def)

definition probeLinksInBatches :: "probe_env \<Rightarrow> jsstring list \<Rightarrow> js_error + probe_state" where
  "probeLinksInBatches env links =
     (let uniqueLinks = filter isRelevantLink (new_Set links)
      in probe_loop env uniqueLinks 0
           \<lparr>admin = None, tech = None, processed = 0, issued = [], progress = []\<rparr>)"

subsection \<open>The run as a sequence of groups\<close>

text \<open>
  The groups of at most \<open>n\<close> consecutive elements of a list, the result of one probe as
  the run sees it, and the state reached by processing a sequence of groups.
\<close>

function chunks :: "nat \<Rightarrow> 'a list \<Rightarrow> 'a list list" where
  "chunks n xs = (if n = 0 \<or> xs = [] then [] else take n xs # chunks n (drop n xs))"
  by pat_completeness auto
termination
  by (relation "measure (\<lambda>(n, xs). length xs)") auto

definition probe_result :: "probe_env \<Rightarrow> jsstring \<Rightarrow> (jsfile \<times> doc_class) option" where
  "probe_result env url = (case probeAndDownloadLink env url of Inl e \<Rightarrow> None | Inr r \<Rightarrow> r)"

definition run_groups ::
  "probe_env \<Rightarrow> nat \<Rightarrow> probe_state \<Rightarrow> jsstring list list \<Rightarrow> probe_state" where
  "run_groups env totalLinks st gs =
     foldl (\<lambda>s g. after_batch totalLinks s g (map (probe_result env) g)) st gs"

definition both_filled :: "probe_state \<Rightarrow> bool" where
  "both_filled st = (admin st \<noteq> None \<and> tech st \<noteq> None)"

subsection \<open>Example run\<close>

text \<open>
  Ten links of which the second is served as \<open>PCAP_2024.pdf\<close> and the fifth as
  \<open>Memoria_Tecnica.pdf\<close> (both named by the \<open>Content-Disposition\<close> header, through the
  first relay); every other fetch fails.
\<close>

definition scenario_links :: "jsstring list" where
  "scenario_links =
     [lit ''https://example.org/d0'', lit ''https://example.org/d1'',
      lit ''https://example.org/d2'', lit ''https://example.org/d3'',
      lit ''https://example.org/d4'', lit ''https://example.org/d5'',
      lit ''https://example.org/d6'', lit ''https://example.org/d7'',
      lit ''https://example.org/d8'', lit ''https://example.org/d9'']"

definition named_pdf :: "jsstring \<Rightarrow> response" where
  "named_pdf nm =
     \<lparr>ok = True,
      content_disposition = Some (lit ''attachment; filename='' @ [0x22] @ nm @ [0x22]),
      body = Inr \<lparr>btype = lit ''application/pdf'', bsize = 3000, btext = Inr (lit ''%PDF-1.7'')\<rparr>\<rparr>"

definition scenario_network :: network where
  "scenario_network u =
     (if u = lit ''https://corsproxy.io/?https%3A%2F%2Fexample.org%2Fd1''
      then Inr (named_pdf (lit ''PCAP_2024.pdf''))
      else if u = lit ''https://corsproxy.io/?https%3A%2F%2Fexample.org%2Fd4''
      then Inr (named_pdf (lit ''Memoria_Tecnica.pdf''))
      else Inl TypeError)"

definition scenario_env :: probe_env where
  "scenario_env = \<lparr>env_net = scenario_network, env_clock = (\<lambda>u. 1700000000000)\<rparr>"

definition scenario_admin :: jsfile where
  "scenario_admin =
     \<lparr>name = lit ''PCAP_2024.pdf'', ftype = lit ''application/pdf'', fsize = 3000\<rparr>"

definition scenario_tech :: jsfile where
  "scenario_tech =
     \<lparr>name = lit ''Memoria_Tecnica.pdf'', ftype = lit ''application/pdf'', fsize = 3000\<rparr>"

section \<open>Web page scraper\<close>

text \<open>
  An anchor element as the scraper reads it: \<open>getAttribute\<close> answers null (\<open>None\<close>) for
  an absent attribute, \<open>textContent\<close> is a string.
\<close>

record anchor =
  a_href :: "jsstring option"
  a_text :: jsstring
  a_title :: "jsstring option"
  a_aria_label :: "jsstring option"
  a_id :: "jsstring option"
  a_class :: "jsstring option"

text \<open>
  The browser built-ins the scraper relies on: the anchors of the parsed page, in document
  order (\<open>DOMParser\<close> and \<open>querySelectorAll('a')\<close>), and the \<open>href\<close> of
  \<open>new URL(href, base)\<close>, which throws on an invalid URL.
\<close>

record browser =
  parse_anchors :: "jsstring \<Rightarrow> anchor list"
  url_href :: "jsstring \<Rightarrow> jsstring \<Rightarrow> js_error + jsstring"

definition or_empty :: "jsstring option \<Rightarrow> jsstring" where
  "or_empty v = (case v of None \<Rightarrow> [] | Some s \<Rightarrow> s)"

definition falsy :: "jsstring option \<Rightarrow> bool" where
  "falsy v = (v = None \<or> v = Some [])"

definition resolveUrl :: "browser \<Rightarrow> jsstring \<Rightarrow> jsstring \<Rightarrow> jsstring" where
  "resolveUrl br pageUrl href =
     (if startsWith href (lit ''http'') then href
      else (case url_href br href pageUrl of Inl e \<Rightarrow> href | Inr u \<Rightarrow> u))"

definition combinedText :: "anchor \<Rightarrow> jsstring \<Rightarrow> jsstring" where
  "combinedText link href =
     normalizeText (a_text link @ lit '' '' @ or_empty (a_title link) @ lit '' '' @
       or_empty (a_aria_label link) @ lit '' '' @ or_empty (a_id link) @ lit '' '' @
       or_empty (a_class link) @ lit '' '' @ href)"

definition isAdmin :: "jsstring \<Rightarrow> bool" where
  "isAdmin combined =
     (includes_str combined (lit ''pcap'') \<or>
      includes_str combined (lit ''clausulas'') \<or>
      includes_str combined (lit ''administrativ'') \<or>
      includes_str combined (lit ''caratula'') \<or>
      includes_str combined (lit ''bases'') \<or>
      includes_str combined (lit ''anexo''))"

definition isTech :: "jsstring \<Rightarrow> bool" where
  "isTech combined =
     (includes_str combined (lit ''ppt'') \<or>
      includes_str combined (lit ''prescripciones'') \<or>
      includes_str combined (lit ''tecnic'') \<or>
      includes_str combined (lit ''memoria'') \<or>
      includes_str combined (lit ''proyecto''))"

definition isFile :: "jsstring \<Rightarrow> bool" where
  "isFile fullUrl =
     (endsWith (toLowerCase fullUrl) (lit ''.pdf'') \<or> endsWith (toLowerCase fullUrl) (lit ''.zip''))"

text \<open>The anchors the loop passes over with \<open>continue\<close>.\<close>

definition skipped :: "anchor \<Rightarrow> bool" where
  "skipped link =
     (case a_href link of
        None \<Rightarrow> True
      | Some href \<Rightarrow>
          href = [] \<or> startsWith href (lit ''javascript'') \<or> href = lit ''#'' \<or> href = lit ''/'')"

record scrape_state =
  adminUrl :: "jsstring option"
  techUrl :: "jsstring option"
  potentialPdfs :: "jsstring list"

text \<open>The body of the loop over the anchors.\<close>

definition scan_link :: "browser \<Rightarrow> jsstring \<Rightarrow> scrape_state \<Rightarrow> anchor \<Rightarrow> scrape_state" where
  "scan_link br pageUrl st link =
     (if skipped link then st
      else
        (let href = or_empty (a_href link);
             fullUrl = resolveUrl br pageUrl href;
             combined = combinedText link href;
             st1 = (if isFile fullUrl then st\<lparr>potentialPdfs := potentialPdfs st @ [fullUrl]\<rparr>
                    else st);
             st2 = (if falsy (adminUrl st1) \<and> isAdmin combined
                    then st1\<lparr>adminUrl := Some fullUrl\<rparr> else st1)
         in if falsy (techUrl st2) \<and> isTech combined
            then st2\<lparr>techUrl := Some fullUrl\<rparr> else st2))"

text \<open>Reading an array element: undefined (\<open>None\<close>) beyond the end.\<close>

definition item :: "jsstring list \<Rightarrow> nat \<Rightarrow> jsstring option" where
  "item xs i = (if i < length xs then Some (xs ! i) else None)"

definition backfill :: "scrape_state \<Rightarrow> scrape_state" where
  "backfill st =
     (if 0 < length (potentialPdfs st) then
        (let st1 = (if falsy (adminUrl st) \<and> \<not> falsy (item (potentialPdfs st) 0)
                    then st\<lparr>adminUrl := item (potentialPdfs st) 0\<rparr> else st)
         in if falsy (techUrl st1) \<and> \<not> falsy (item (potentialPdfs st1) 1)
            then st1\<lparr>techUrl := item (potentialPdfs st1) 1\<rparr> else st1)
      else st)"

text \<open>The \<open>try\<close> block of \<open>scrapeDocsFromWeb\<close>, and the function: the pair of its result.\<close>

definition scrape_body ::
  "browser \<Rightarrow> network \<Rightarrow> jsstring \<Rightarrow> js_error + (jsstring option \<times> jsstring option)" where
  "scrape_body br net pageUrl =
     (case encodeURIComponent pageUrl of
        Inl e \<Rightarrow> Inl e
      | Inr enc \<Rightarrow>
          (case net (lit ''https://corsproxy.io/?'' @ enc) of
             Inl e \<Rightarrow> Inl e
           | Inr response \<Rightarrow>
               if \<not> ok response then Inl (JsError ''Proxy response not ok'')
               else
                 (case response_text response of
                    Inl e \<Rightarrow> Inl e
                  | Inr htmlString \<Rightarrow>
                      (let links = parse_anchors br htmlString;
                           st = foldl (scan_link br pageUrl)
                                  \<lparr>adminUrl = None, techUrl = None, potentialPdfs = []\<rparr> links;
                           st' = backfill st
                       in Inr (adminUrl st', techUrl st')))))"

definition scrapeDocsFromWeb ::
  "browser \<Rightarrow> network \<Rightarrow> jsstring \<Rightarrow> jsstring option \<times> jsstring option" where
  "scrapeDocsFromWeb br net pageUrl =
     (if pageUrl = [] \<or> \<not> startsWith pageUrl (lit ''http'') then (None, None)
      else (case scrape_body br net pageUrl of Inl e \<Rightarrow> (None, None) | Inr r \<Rightarrow> r))"

subsection \<open>The scan as a search\<close>

text \<open>
  The anchors the loop looks at, the URL it resolves for an anchor and the string it
  searches for keywords.
\<close>

definition scanned :: "anchor list \<Rightarrow> anchor list" where
  "scanned links = filter (\<lambda>link. \<not> skipped link) links"

definition full_url :: "browser \<Rightarrow> jsstring \<Rightarrow> anchor \<Rightarrow> jsstring" where
  "full_url br pageUrl link = resolveUrl br pageUrl (or_empty (a_href link))"

definition link_text :: "anchor \<Rightarrow> jsstring" where
  "link_text link = combinedText link (or_empty (a_href link))"

subsection \<open>Example page\<close>

text \<open>
  A page with two anchors to \<open>.pdf\<close> files and no keyword in their text, attributes or
  links, parsed by a browser that knows this page only and resolves no relative link.
\<close>

definition generic_html :: jsstring where
  "generic_html =
     lit ''<a href='' @ [0x22] @ lit ''https://example.org/files/doc1.pdf'' @ [0x22] @
     lit ''>Documento 1</a><a href='' @ [0x22] @ lit ''https://example.org/files/doc2.pdf'' @
     [0x22] @ lit ''>Documento 2</a>''"

definition generic_page :: "anchor list" where
  "generic_page =
     [\<lparr>a_href = Some (lit ''https://example.org/files/doc1.pdf''), a_text = lit ''Documento 1'',
       a_title = None, a_aria_label = None, a_id = None, a_class = None\<rparr>,
      \<lparr>a_href = Some (lit ''https://example.org/files/doc2.pdf''), a_text = lit ''Documento 2'',
       a_title = None, a_aria_label = None, a_id = None, a_class = None\<rparr>]"

definition example_browser :: browser where
  "example_browser =
     \<lparr>parse_anchors = (\<lambda>html. if html = generic_html then generic_page else []),
      url_href = (\<lambda>href base. Inl TypeError)\<rparr>"

definition page_network :: network where
  "page_network u =
     (if u = lit ''https://corsproxy.io/?https%3A%2F%2Fexample.org%2Flicitacion''
      then Inr \<lparr>ok = True, content_disposition = None,
             body = Inr \<lparr>btype = lit ''text/html'', bsize = 120, btext = Inr generic_html\<rparr>\<rparr>
      else Inl TypeError)"

section \<open>Metadata extraction\<close>

text \<open>A JSON value; a number is kept as its text.\<close>

datatype json =
  JNull | JBool bool | JNumber jsstring | JString jsstring | JArray "json list" |
  JObject "(jsstring \<times> json) list"

text \<open>
  What the extraction depends on: the API key of the process environment, the reading of
  the file into its base64 data (\<open>fileToPart\<close>, which rejects when the reader fails),
  the service call, which answers with the \<open>text\<close> of the response (\<open>None\<close> when it is
  undefined) or rejects, and \<open>JSON.parse\<close>, which throws on malformed text.
\<close>

record ai_env =
  api_key :: "jsstring option"
  fileToPart :: "jsfile \<Rightarrow> js_error + jsstring"
  generateContent :: "jsstring \<Rightarrow> js_error + jsstring option"
  JSON_parse :: "jsstring \<Rightarrow> js_error + json"

definition getAiClient :: "ai_env \<Rightarrow> js_error + jsstring" where
  "getAiClient env =
     (case api_key env of
        None \<Rightarrow> Inl (JsError ''API Key no encontrada'')
      | Some k \<Rightarrow> if k = [] then Inl (JsError ''API Key no encontrada'') else Inr k)"

definition empty_metadata :: json where
  "empty_metadata =
     JObject [(lit ''name'', JString []), (lit ''adminUrl'', JString []),
       (lit ''techUrl'', JString []), (lit ''tenderPageUrl'', JString []),
       (lit ''budget'', JString []), (lit ''scoringSystem'', JString [])]"

text \<open>The \<open>try\<close> block; its \<open>catch\<close> logs the error and throws it again.\<close>

definition extract_body :: "ai_env \<Rightarrow> jsstring \<Rightarrow> js_error + json" where
  "extract_body env filePart =
     (case generateContent env filePart of
        Inl e \<Rightarrow> Inl e
      | Inr text \<Rightarrow>
          (case text of
             None \<Rightarrow> Inr empty_metadata
           | Some t \<Rightarrow> if t = [] then Inr empty_metadata else JSON_parse env t))"

definition extractMetadataFromTenderFile :: "ai_env \<Rightarrow> jsfile \<Rightarrow> js_error + json" where
  "extractMetadataFromTenderFile env f =
     (case getAiClient env of
        Inl e \<Rightarrow> Inl e
      | Inr ai \<Rightarrow>
          (case fileToPart env f of
             Inl e \<Rightarrow> Inl e
           | Inr filePart \<Rightarrow>
               (case extract_body env filePart of Inl e \<Rightarrow> Inl e | Inr v \<Rightarrow> Inr v)))"

subsection \<open>Example services\<close>

text \<open>
  A stand-in for \<open>JSON.parse\<close> that knows the three literals only and rejects every other
  text; it agrees with the built-in on the texts used below.  Two services: one whose
  response has no text, one whose response text is an HTML error page.
\<close>

definition literal_parse :: "jsstring \<Rightarrow> js_error + json" where
  "literal_parse t =
     (if t = lit ''null'' then Inr JNull
      else if t = lit ''true'' then Inr (JBool True)
      else if t = lit ''false'' then Inr (JBool False)
      else Inl SyntaxError)"

definition silent_service :: ai_env where
  "silent_service =
     \<lparr>api_key = Some (lit ''key''), fileToPart = (\<lambda>f. Inr (lit ''JVBERi0='')),
      generateContent = (\<lambda>part. Inr None), JSON_parse = literal_parse\<rparr>"

definition garbled_service :: ai_env where
  "garbled_service =
     \<lparr>api_key = Some (lit ''key''), fileToPart = (\<lambda>f. Inr (lit ''JVBERi0='')),
      generateContent = (\<lambda>part. Inr (Some (lit ''<html>Bad Gateway</html>''))),
      JSON_parse = literal_parse\<rparr>"

section \<open>Properties of the string built-ins\<close>

lemma unat_lower_unit:
  "unat (lower_unit c) =
     (if (65 \<le> unat c \<and> unat c \<le> 90) \<or> (192 \<le> unat c \<and> unat c \<le> 222 \<and> unat c \<noteq> 215)
      then unat c + 32 else unat c)"
proof -
  have add: "unat c \<le> 222 \<Longrightarrow> unat (c + 0x20) = unat c + 32"
    by (simp add: unat_word_ariths)
  show ?thesis
    using add by (auto simp: lower_unit_def word_le_nat_alt word_unat_eq_iff)
qed

lemma lower_unit_idem: "lower_unit (lower_unit c) = lower_unit c"
  by (simp add: word_unat_eq_iff unat_lower_unit)

lemma lower_unit_cgj: "lower_unit c = 0x34F \<Longrightarrow> c = 0x34F"
  by (simp add: word_unat_eq_iff unat_lower_unit split: if_splits)

lemma ccc_marks: "is_mark c \<Longrightarrow> c \<noteq> 0x34F \<Longrightarrow> ccc c \<noteq> 0"
  unfolding ccc_def combining_classes_def is_mark_def
  by (simp add: word_le_nat_alt word_less_nat_alt word_unat_eq_iff)


lemma table_inert:
  "list_all (\<lambda>(k, ds). lower_unit k = k \<longrightarrow> list_all (\<lambda>d. is_mark d \<or> inert_unit d) ds)
     canonical_decompositions"
  by code_simp

lemma table_no_cgj: "list_all (\<lambda>(k, ds). 0x34F \<notin> set ds) canonical_decompositions"
  by code_simp

lemma decompose_cases:
  "decompose c = [c] \<or> (c, decompose c) \<in> set canonical_decompositions"
  by (auto simp: decompose_def dest: map_of_SomeD split: option.splits)

lemma decompose_lower_inert:
  assumes "lower_unit c = c" and "d \<in> set (decompose c)" and "\<not> is_mark d"
  shows "inert_unit d"
proof -
  from decompose_cases [of c] show ?thesis
  proof
    assume "decompose c = [c]"
    with assms show ?thesis by (simp add: inert_unit_def)
  next
    assume "(c, decompose c) \<in> set canonical_decompositions"
    with table_inert assms show ?thesis
      by (auto simp: list_all_iff)
  qed
qed

lemma decompose_no_cgj: "0x34F \<in> set (decompose c) \<Longrightarrow> c = 0x34F"
  using decompose_cases [of c] table_no_cgj by (auto simp: list_all_iff)

lemma set_reorder_insert: "set (reorder_insert c xs) = insert c (set xs)"
  by (induction xs) auto

lemma set_canonical_order: "set (canonical_order xs) = set xs"
  by (induction xs) (auto simp: set_reorder_insert)

lemma reorder_insert_head:
  "reorder_insert c xs = y # ys \<Longrightarrow> y = c \<or> (\<exists>zs. xs = y # zs \<and> ccc y \<noteq> 0 \<and> ccc y < ccc c)"
  by (cases xs) (auto split: if_splits)

lemma ordered_reorder_insert: "ordered_marks xs \<Longrightarrow> ordered_marks (reorder_insert c xs)"
proof (induction xs rule: ordered_marks.induct)
  case 1
  then show ?case by simp
next
  case (2 d)
  then show ?case by simp
next
  case (3 d e es)
  show ?case
  proof (cases "ccc d \<noteq> 0 \<and> ccc d < ccc c")
    case False
    with 3 show ?thesis by auto
  next
    case True
    from 3 have o: "ordered_marks (reorder_insert c (e # es))" by simp
    obtain y ys where r: "reorder_insert c (e # es) = y # ys"
      by (cases "reorder_insert c (e # es)") (auto split: if_splits)
    from reorder_insert_head [OF r] 3(2) True have "ccc y = 0 \<or> ccc d \<le> ccc y"
      by auto
    with o r True show ?thesis by simp
  qed
qed

lemma ordered_canonical_order: "ordered_marks (canonical_order xs)"
  by (induction xs) (auto intro: ordered_reorder_insert)

lemma canonical_order_ordered: "ordered_marks xs \<Longrightarrow> canonical_order xs = xs"
  by (induction xs rule: ordered_marks.induct) auto

lemma ordered_tail: "ordered_marks (c # xs) \<Longrightarrow> ordered_marks xs"
  by (cases xs) auto

lemma ordered_skip: "ordered_marks (c # d # ds) \<Longrightarrow> ccc d \<noteq> 0 \<Longrightarrow> ordered_marks (c # ds)"
  by (cases ds) auto

lemma ordered_filter_cons:
  "ordered_marks (c # xs) \<Longrightarrow> \<forall>x\<in>set xs. \<not> P x \<longrightarrow> ccc x \<noteq> 0 \<Longrightarrow>
   ordered_marks (c # filter P xs)"
proof (induction xs arbitrary: c)
  case Nil
  then show ?case by simp
next
  case (Cons d ds)
  show ?case
  proof (cases "P d")
    case True
    from Cons.prems have "ordered_marks (d # ds)" by simp
    with Cons.IH [of d] Cons.prems have "ordered_marks (d # filter P ds)" by simp
    with Cons.prems True show ?thesis by simp
  next
    case False
    with Cons.prems have "ccc d \<noteq> 0" by simp
    with Cons.prems have "ordered_marks (c # ds)" by (blast intro: ordered_skip)
    with Cons.IH [of c] Cons.prems False show ?thesis by simp
  qed
qed

lemma ordered_filter:
  "ordered_marks xs \<Longrightarrow> \<forall>x\<in>set xs. \<not> P x \<longrightarrow> ccc x \<noteq> 0 \<Longrightarrow> ordered_marks (filter P xs)"
proof (induction xs)
  case Nil
  then show ?case by simp
next
  case (Cons c cs)
  then have t: "ordered_marks (filter P cs)" by (auto dest: ordered_tail)
  show ?case
  proof (cases "P c")
    case True
    with ordered_filter_cons [of c cs P] Cons.prems show ?thesis by simp
  next
    case False
    with t show ?thesis by simp
  qed
qed

lemma normalizeText_inert_fixed:
  assumes "\<forall>c\<in>set r. inert_unit c \<and> \<not> is_mark c" and "ordered_marks r"
  shows "normalizeText r = r"
proof -
  from assms(1) have l: "toLowerCase r = r"
    by (simp add: toLowerCase_def inert_unit_def map_idI)
  from assms(1) have d: "concat (map decompose r) = r"
    by (induction r) (auto simp: inert_unit_def)
  from assms(1) have s: "strip_marks r = r"
    by (simp add: strip_marks_def)
  show ?thesis
    by (simp add: normalizeText_def normalizeNFD_def l d s canonical_order_ordered assms(2))
qed

lemma normalizeText_idem_aux:
  assumes "\<forall>c\<in>set s. c \<noteq> 0x34F"
  shows "normalizeText (normalizeText s) = normalizeText s"
proof -
  define D where "D = concat (map decompose (toLowerCase s))"
  have r: "normalizeText s = filter (\<lambda>c. \<not> is_mark c) (canonical_order D)"
    by (simp add: normalizeText_def normalizeNFD_def strip_marks_def D_def)
  have nocgj: "0x34F \<notin> set D"
    using assms by (auto simp: D_def toLowerCase_def dest!: decompose_no_cgj lower_unit_cgj)
  have inert: "inert_unit d" if "d \<in> set D" and "\<not> is_mark d" for d
  proof -
    from that(1) obtain c where "d \<in> set (decompose (lower_unit c))"
      by (auto simp: D_def toLowerCase_def)
    with lower_unit_idem [of c] that(2) show ?thesis
      by (blast intro: decompose_lower_inert)
  qed
  have "\<forall>x\<in>set (canonical_order D). \<not> \<not> is_mark x \<longrightarrow> ccc x \<noteq> 0"
    using nocgj by (auto simp: set_canonical_order dest: ccc_marks)
  with ordered_canonical_order [of D]
  have "ordered_marks (filter (\<lambda>c. \<not> is_mark c) (canonical_order D))"
    by (rule ordered_filter)
  then have o: "ordered_marks (normalizeText s)"
    by (simp only: r)
  have "\<forall>c\<in>set (filter (\<lambda>c. \<not> is_mark c) (canonical_order D)).
      inert_unit c \<and> \<not> is_mark c"
    using inert by (simp add: set_canonical_order)
  then have i: "\<forall>c\<in>set (normalizeText s). inert_unit c \<and> \<not> is_mark c"
    by (simp only: r)
  from i o show ?thesis
    by (rule normalizeText_inert_fixed)
qed

section \<open>Text normalizer\<close>

text \<open>
  C9 (as amended).  The normalizer identifies the accented, capitalised spelling with the
  plain one: both the precomposed form of the word (with U+00E9) and the decomposed
  form (with e followed by U+0301) normalize to "tecnico".  It is idempotent on every
  string of modelled code units that does not contain the combining grapheme joiner
  U+034F.
\<close>

theorem normalizeText_idempotent:
  "((\<forall>c\<in>set s. modelled_unit c \<and> c \<noteq> 0x34F) \<longrightarrow>
      normalizeText (normalizeText s) = normalizeText s) \<and>
   normalizeText (lit ''T'' @ [0xE9] @ lit ''cnico'') = normalizeText (lit ''tecnico'') \<and>
   normalizeText (lit ''Te'' @ [0x301] @ lit ''cnico'') = normalizeText (lit ''tecnico'')"
proof (intro conjI impI)
  assume "\<forall>c\<in>set s. modelled_unit c \<and> c \<noteq> 0x34F"
  then have "\<forall>c\<in>set s. c \<noteq> 0x34F" by simp
  then show "normalizeText (normalizeText s) = normalizeText s"
    by (rule normalizeText_idem_aux)
next
  show "normalizeText (lit ''T'' @ [0xE9] @ lit ''cnico'') = normalizeText (lit ''tecnico'')"
    by code_simp
next
  show "normalizeText (lit ''Te'' @ [0x301] @ lit ''cnico'') = normalizeText (lit ''tecnico'')"
    by code_simp
qed

theorem normalizeText_idempotent_witness:
  "list_all (\<lambda>c. modelled_unit c \<and> c \<noteq> 0x34F) (lit ''T'' @ [0xE9] @ lit ''cnico'') \<and>
   normalizeText (normalizeText (lit ''T'' @ [0xE9] @ lit ''cnico'')) =
     normalizeText (lit ''T'' @ [0xE9] @ lit ''cnico'')"
proof -
  have h: "list_all (\<lambda>c. modelled_unit c \<and> c \<noteq> 0x34F) (lit ''T'' @ [0xE9] @ lit ''cnico'')"
    by code_simp
  then have "\<forall>c\<in>set (lit ''T'' @ [0xE9] @ lit ''cnico''). modelled_unit c \<and> c \<noteq> 0x34F"
    by (simp only: list_all_iff)
  with normalizeText_idempotent [of "lit ''T'' @ [0xE9] @ lit ''cnico''"]
  have "normalizeText (normalizeText (lit ''T'' @ [0xE9] @ lit ''cnico'')) =
     normalizeText (lit ''T'' @ [0xE9] @ lit ''cnico'')"
    by blast
  with h show ?thesis
    by (rule conjI)
qed

text \<open>
  The claim as stated, idempotence on every string, fails: in the string U+0591 U+034F
  U+05B0 the joiner (a starter) keeps the two Hebrew marks apart, so decomposition leaves
  their order alone; the joiner lies in the stripped range, and once it is gone a second
  normalization reorders the marks by combining class (10 before 220).
\<close>

theorem normalizeText_not_idempotent:
  "normalizeText [0x591, 0x34F, 0x5B0] = [0x591, 0x5B0] \<and>
   normalizeText (normalizeText [0x591, 0x34F, 0x5B0]) = [0x5B0, 0x591]"
  by code_simp

section \<open>File classifier\<close>

lemma classifyFile_name: "name f = name g \<Longrightarrow> classifyFile f = classifyFile g"
  by (simp add: classifyFile_def)

text \<open>
  C8.  \<open>classifyFile\<close> answers ADMIN when the normalized file name contains an
  administrative keyword, otherwise TECH when it contains a technical keyword, otherwise
  UNKNOWN; the three file names of the specification classify as stated.
\<close>

theorem classifyFile_keywords:
  "classifyFile f =
     (if \<exists>k\<in>set admin_keywords. includes_str (normalizeText (name f)) k then ADMIN
      else if \<exists>k\<in>set tech_keywords. includes_str (normalizeText (name f)) k then TECH
      else UNKNOWN) \<and>
   (name f = lit ''PCAP_2024.pdf'' \<longrightarrow> classifyFile f = ADMIN) \<and>
   (name f = lit ''Memoria_Tecnica.pdf'' \<longrightarrow> classifyFile f = TECH) \<and>
   (name f = lit ''random_file.pdf'' \<longrightarrow> classifyFile f = UNKNOWN)"
proof (intro conjI impI)
  show "classifyFile f =
     (if \<exists>k\<in>set admin_keywords. includes_str (normalizeText (name f)) k then ADMIN
      else if \<exists>k\<in>set tech_keywords. includes_str (normalizeText (name f)) k then TECH
      else UNKNOWN)"
    by (simp add: classifyFile_def admin_keywords_def tech_keywords_def Let_def)
next
  have "classifyFile \<lparr>name = lit ''PCAP_2024.pdf'', ftype = [], fsize = 0\<rparr> = ADMIN"
    by code_simp
  moreover assume "name f = lit ''PCAP_2024.pdf''"
  ultimately show "classifyFile f = ADMIN"
    using classifyFile_name [of f "\<lparr>name = lit ''PCAP_2024.pdf'', ftype = [], fsize = 0\<rparr>"]
    by simp
next
  have "classifyFile \<lparr>name = lit ''Memoria_Tecnica.pdf'', ftype = [], fsize = 0\<rparr> = TECH"
    by code_simp
  moreover assume "name f = lit ''Memoria_Tecnica.pdf''"
  ultimately show "classifyFile f = TECH"
    using classifyFile_name [of f "\<lparr>name = lit ''Memoria_Tecnica.pdf'', ftype = [], fsize = 0\<rparr>"]
    by simp
next
  have "classifyFile \<lparr>name = lit ''random_file.pdf'', ftype = [], fsize = 0\<rparr> = UNKNOWN"
    by code_simp
  moreover assume "name f = lit ''random_file.pdf''"
  ultimately show "classifyFile f = UNKNOWN"
    using classifyFile_name [of f "\<lparr>name = lit ''random_file.pdf'', ftype = [], fsize = 0\<rparr>"]
    by simp
qed

theorem classifyFile_keywords_witness:
  "name \<lparr>name = lit ''PCAP_2024.pdf'', ftype = lit ''application/pdf'', fsize = 3000\<rparr> =
     lit ''PCAP_2024.pdf'' \<and>
   (\<exists>k\<in>set admin_keywords. includes_str (normalizeText (lit ''PCAP_2024.pdf'')) k) \<and>
   classifyFile \<lparr>name = lit ''PCAP_2024.pdf'', ftype = lit ''application/pdf'', fsize = 3000\<rparr> =
     ADMIN"
proof -
  have "\<exists>k\<in>set admin_keywords. includes_str (normalizeText (lit ''PCAP_2024.pdf'')) k"
    by code_simp
  then show ?thesis
    using classifyFile_keywords
      [of "\<lparr>name = lit ''PCAP_2024.pdf'', ftype = lit ''application/pdf'', fsize = 3000\<rparr>"]
    by simp
qed

section \<open>Relevance filter\<close>

text \<open>
  C3 (as amended).  The filter rejects every URL whose lower-cased form starts with
  "mailto:" or contains "facebook", "youtube" or "maps.", and it accepts
  \<open>https://example.com/doc.pdf\<close>.
\<close>

theorem isRelevantLink_deny_list:
  "(startsWith (toLowerCase url) (lit ''mailto:'') \<or>
    includes_str (toLowerCase url) (lit ''facebook'') \<or>
    includes_str (toLowerCase url) (lit ''youtube'') \<or>
    includes_str (toLowerCase url) (lit ''maps.'') \<longrightarrow> \<not> isRelevantLink url) \<and>
   isRelevantLink (lit ''https://example.com/doc.pdf'')"
proof (intro conjI impI)
  assume "startsWith (toLowerCase url) (lit ''mailto:'') \<or>
    includes_str (toLowerCase url) (lit ''facebook'') \<or>
    includes_str (toLowerCase url) (lit ''youtube'') \<or>
    includes_str (toLowerCase url) (lit ''maps.'')"
  then show "\<not> isRelevantLink url"
    by (auto simp: isRelevantLink_def Let_def)
next
  show "isRelevantLink (lit ''https://example.com/doc.pdf'')"
    by code_simp
qed

theorem isRelevantLink_deny_list_witness:
  "startsWith (toLowerCase (lit ''MAILTO:info@example.com'')) (lit ''mailto:'') \<and>
   \<not> isRelevantLink (lit ''MAILTO:info@example.com'')"
proof -
  have h: "startsWith (toLowerCase (lit ''MAILTO:info@example.com'')) (lit ''mailto:'')"
    by code_simp
  with isRelevantLink_deny_list [of "lit ''MAILTO:info@example.com''"] show ?thesis
    by blast
qed

text \<open>
  The claim as stated fails for "mailto:": the filter tests it with \<open>startsWith\<close>, so a
  URL that merely contains "mailto:" further on is accepted.
\<close>

theorem isRelevantLink_mailto_inside:
  "includes_str (toLowerCase (lit ''https://example.com/?to=mailto:a@b.c'')) (lit ''mailto:'') \<and>
   isRelevantLink (lit ''https://example.com/?to=mailto:a@b.c'')"
  by code_simp

section \<open>Single-URL downloader\<close>

lemma startsWith_append: "startsWith (p @ s) p"
  by (induction p) auto

lemma endsWith_append: "endsWith (s @ t) t"
  by (simp add: endsWith_def startsWith_append)

lemma tryDownload_pdf:
  assumes "net u = Inr r" "ok r" "body r = Inr b" "btype b = lit ''application/pdf''"
    "bsize b = 3000" "content_disposition r = None"
  shows "tryDownload net u = Some (b, [])"
proof -
  have "\<not> includes_str (lit ''application/pdf'') (lit ''text/html'')" by code_simp
  with assms show ?thesis
    by (simp add: tryDownload_def tryDownload_body_def disposition_filename_def)
qed

lemma tryDownload_html:
  assumes "net u = Inr r" "ok r" "body r = Inr b" "btype b = lit ''text/html''"
  shows "tryDownload net u = None"
proof -
  have "includes_str (lit ''text/html'') (lit ''text/html'')" by code_simp
  with assms show ?thesis
    by (simp add: tryDownload_def tryDownload_body_def)
qed

lemma download_first_pdf:
  assumes "url \<noteq> []" "startsWith url (lit ''http'')" "encodeURIComponent url = Inr enc"
    and "tryDownload net (lit ''https://corsproxy.io/?'' @ enc) = Some (b, [])"
    and "btype b = lit ''application/pdf''"
  shows "downloadFileFromUrl net now url prefix =
     \<lparr>fetched = [lit ''https://corsproxy.io/?'' @ enc],
      outcome = Inr (Some \<lparr>name = prefix @ lit ''_'' @ number_string now @ lit ''.pdf'',
        ftype = file_type (btype b), fsize = bsize b\<rparr>)\<rparr>"
  using assms
  by (simp add: downloadFileFromUrl_def download_attempts_def returns_def new_File_def
      final_name_def extension_for_def Let_def)

lemma download_both_fail:
  assumes "encodeURIComponent url = Inr enc"
    and "tryDownload net (lit ''https://corsproxy.io/?'' @ enc) = None"
    and "tryDownload net (lit ''https://api.allorigins.win/raw?url='' @ enc) = None"
  shows "outcome (downloadFileFromUrl net now url prefix) = Inr None"
  using assms
  by (simp add: downloadFileFromUrl_def download_attempts_def returns_def Let_def)

lemma download_returns: "\<exists>r. outcome (downloadFileFromUrl net now url prefix) = Inr r"
  by (simp add: downloadFileFromUrl_def returns_def split: sum.splits prod.splits)

lemma tryDownload_failures:
  "(net u = Inl e \<longrightarrow> tryDownload net u = None) \<and>
   (net u = Inr r \<and> \<not> ok r \<longrightarrow> tryDownload net u = None) \<and>
   (net u = Inr r \<and> ok r \<and> body r = Inl e \<longrightarrow> tryDownload net u = None) \<and>
   (net u = Inr r \<and> ok r \<and> body r = Inr b \<and>
      (includes_str (btype b) (lit ''text/html'') \<or> bsize b < 2000 \<and> error_page_text b)
      \<longrightarrow> tryDownload net u = None)"
  by (auto simp: tryDownload_def tryDownload_body_def Let_def)

text \<open>
  C4.  Through a relay that answers with a successful response carrying a 3000-byte
  \<open>application/pdf\<close> body and no \<open>Content-Disposition\<close>, the downloader returns a file
  of 3000 bytes whose name, synthesized from the prefix and the time stamp, ends in
  \<open>.pdf\<close>.  A successful response with a 500-byte \<open>text/html\<close> body containing
  \<open><html\<close> is a failed attempt, and when both relays answer so the downloader returns
  null.
\<close>

theorem downloader_payload_validation:
  assumes "url \<noteq> []" and "startsWith url (lit ''http'')" and "encodeURIComponent url = Inr enc"
  shows
    "(net (lit ''https://corsproxy.io/?'' @ enc) = Inr r \<and> ok r \<and>
      content_disposition r = None \<and> body r = Inr b \<and>
      btype b = lit ''application/pdf'' \<and> bsize b = 3000 \<longrightarrow>
        (\<exists>f. outcome (downloadFileFromUrl net now url defaultPrefix) = Inr (Some f) \<and>
           fsize f = 3000 \<and> endsWith (name f) (lit ''.pdf'') \<and>
           name f = defaultPrefix @ lit ''_'' @ number_string now @ lit ''.pdf'')) \<and>
     (net u = Inr r' \<and> ok r' \<and> body r' = Inr b' \<and> btype b' = lit ''text/html'' \<and>
      bsize b' = 500 \<and> btext b' = Inr t \<and> includes_str t (lit ''<html'') \<longrightarrow>
        tryDownload net u = None) \<and>
     (net (lit ''https://corsproxy.io/?'' @ enc) = Inr r1 \<and> ok r1 \<and> body r1 = Inr b1 \<and>
      btype b1 = lit ''text/html'' \<and> bsize b1 = 500 \<and> btext b1 = Inr t1 \<and>
      includes_str t1 (lit ''<html'') \<and>
      net (lit ''https://api.allorigins.win/raw?url='' @ enc) = Inr r2 \<and> ok r2 \<and>
      body r2 = Inr b2 \<and> btype b2 = lit ''text/html'' \<and> bsize b2 = 500 \<and>
      btext b2 = Inr t2 \<and> includes_str t2 (lit ''<html'') \<longrightarrow>
        downloadFileFromUrl net now url defaultPrefix =
          \<lparr>fetched = [lit ''https://corsproxy.io/?'' @ enc,
                      lit ''https://api.allorigins.win/raw?url='' @ enc],
           outcome = Inr None\<rparr>)"
proof (intro conjI impI)
  assume h: "net (lit ''https://corsproxy.io/?'' @ enc) = Inr r \<and> ok r \<and>
      content_disposition r = None \<and> body r = Inr b \<and>
      btype b = lit ''application/pdf'' \<and> bsize b = 3000"
  then have "tryDownload net (lit ''https://corsproxy.io/?'' @ enc) = Some (b, [])"
    by (intro tryDownload_pdf [of net _ r]) auto
  with assms h have "downloadFileFromUrl net now url defaultPrefix =
     \<lparr>fetched = [lit ''https://corsproxy.io/?'' @ enc],
      outcome = Inr (Some \<lparr>name = defaultPrefix @ lit ''_'' @ number_string now @ lit ''.pdf'',
        ftype = file_type (btype b), fsize = bsize b\<rparr>)\<rparr>"
    by (intro download_first_pdf) auto
  moreover have "endsWith (defaultPrefix @ lit ''_'' @ number_string now @ lit ''.pdf'')
      (lit ''.pdf'')"
    using endsWith_append [of "defaultPrefix @ lit ''_'' @ number_string now" "lit ''.pdf''"]
    by simp
  ultimately show "\<exists>f. outcome (downloadFileFromUrl net now url defaultPrefix) = Inr (Some f) \<and>
           fsize f = 3000 \<and> endsWith (name f) (lit ''.pdf'') \<and>
           name f = defaultPrefix @ lit ''_'' @ number_string now @ lit ''.pdf''"
    using h by simp
next
  assume "net u = Inr r' \<and> ok r' \<and> body r' = Inr b' \<and> btype b' = lit ''text/html'' \<and>
      bsize b' = 500 \<and> btext b' = Inr t \<and> includes_str t (lit ''<html'')"
  then show "tryDownload net u = None"
    by (intro tryDownload_html [of net u r' b']) auto
next
  assume h: "net (lit ''https://corsproxy.io/?'' @ enc) = Inr r1 \<and> ok r1 \<and> body r1 = Inr b1 \<and>
      btype b1 = lit ''text/html'' \<and> bsize b1 = 500 \<and> btext b1 = Inr t1 \<and>
      includes_str t1 (lit ''<html'') \<and>
      net (lit ''https://api.allorigins.win/raw?url='' @ enc) = Inr r2 \<and> ok r2 \<and>
      body r2 = Inr b2 \<and> btype b2 = lit ''text/html'' \<and> bsize b2 = 500 \<and>
      btext b2 = Inr t2 \<and> includes_str t2 (lit ''<html'')"
  then have 1: "tryDownload net (lit ''https://corsproxy.io/?'' @ enc) = None"
    by (intro tryDownload_html [of net _ r1 b1]) auto
  from h have 2: "tryDownload net (lit ''https://api.allorigins.win/raw?url='' @ enc) = None"
    by (intro tryDownload_html [of net _ r2 b2]) auto
  from assms 1 2 show "downloadFileFromUrl net now url defaultPrefix =
          \<lparr>fetched = [lit ''https://corsproxy.io/?'' @ enc,
                      lit ''https://api.allorigins.win/raw?url='' @ enc],
           outcome = Inr None\<rparr>"
    by (simp add: downloadFileFromUrl_def download_attempts_def returns_def Let_def)
qed

lemma example_urls:
  "encodeURIComponent (lit ''https://example.org/pliego'') =
     Inr (lit ''https%3A%2F%2Fexample.org%2Fpliego'')"
  "encodeURIComponent (lit ''https://example.org/blocked'') =
     Inr (lit ''https%3A%2F%2Fexample.org%2Fblocked'')"
  "startsWith (lit ''https://example.org/pliego'') (lit ''http'')"
  "startsWith (lit ''https://example.org/blocked'') (lit ''http'')"
  "lit ''https://example.org/pliego'' \<noteq> []"
  "lit ''https://example.org/blocked'' \<noteq> []"
  by code_simp+

lemma example_network_answers:
  "example_network (lit ''https://corsproxy.io/?'' @ lit ''https%3A%2F%2Fexample.org%2Fpliego'') =
     Inr pdf_response"
  "example_network (lit ''https://corsproxy.io/?'' @ lit ''https%3A%2F%2Fexample.org%2Fblocked'') =
     Inr html_response"
  "example_network
     (lit ''https://api.allorigins.win/raw?url='' @ lit ''https%3A%2F%2Fexample.org%2Fblocked'') =
     Inr html_response"
  by code_simp+

lemma html_body_marker:
  "includes_str (lit ''<html><body>Please verify you are human</body></html>'') (lit ''<html'')"
  by code_simp

theorem downloader_payload_validation_witness:
  "(\<exists>f. outcome (downloadFileFromUrl example_network 1700000000000
            (lit ''https://example.org/pliego'') (lit ''PCAP'')) = Inr (Some f) \<and>
        fsize f = 3000 \<and> endsWith (name f) (lit ''.pdf'')) \<and>
   outcome (downloadFileFromUrl example_network 1700000000000
      (lit ''https://example.org/blocked'') (lit ''PCAP'')) = Inr None"
proof
  show "\<exists>f. outcome (downloadFileFromUrl example_network 1700000000000
            (lit ''https://example.org/pliego'') (lit ''PCAP'')) = Inr (Some f) \<and>
        fsize f = 3000 \<and> endsWith (name f) (lit ''.pdf'')"
    using downloader_payload_validation
      [OF example_urls(5) example_urls(3) example_urls(1), where net = example_network
        and r = pdf_response
        and b = "\<lparr>btype = lit ''application/pdf'', bsize = 3000, btext = Inr (lit ''%PDF-1.7'')\<rparr>"
        and now = 1700000000000 and defaultPrefix = "lit ''PCAP''", THEN conjunct1]
      example_network_answers(1)
    by (auto simp: pdf_response_def)
next
  have "downloadFileFromUrl example_network 1700000000000
      (lit ''https://example.org/blocked'') (lit ''PCAP'') =
    \<lparr>fetched = [lit ''https://corsproxy.io/?'' @ lit ''https%3A%2F%2Fexample.org%2Fblocked'',
       lit ''https://api.allorigins.win/raw?url='' @ lit ''https%3A%2F%2Fexample.org%2Fblocked''],
     outcome = Inr None\<rparr>"
    using downloader_payload_validation
      [OF example_urls(6) example_urls(4) example_urls(2), where net = example_network
        and ?r1.0 = html_response
        and ?b1.0 = "\<lparr>btype = lit ''text/html'', bsize = 500,
          btext = Inr (lit ''<html><body>Please verify you are human</body></html>'')\<rparr>"
        and ?t1.0 = "lit ''<html><body>Please verify you are human</body></html>''"
        and ?r2.0 = html_response
        and ?b2.0 = "\<lparr>btype = lit ''text/html'', bsize = 500,
          btext = Inr (lit ''<html><body>Please verify you are human</body></html>'')\<rparr>"
        and ?t2.0 = "lit ''<html><body>Please verify you are human</body></html>''"
        and now = 1700000000000 and defaultPrefix = "lit ''PCAP''",
        THEN conjunct2, THEN conjunct2]
      example_network_answers(2,3) html_body_marker
    by (simp add: html_response_def)
  then show "outcome (downloadFileFromUrl example_network 1700000000000
      (lit ''https://example.org/blocked'') (lit ''PCAP'')) = Inr None"
    by simp
qed

text \<open>
  C7 (as amended).  \<open>downloadFileFromUrl\<close> always returns: no exception leaves it.  For the empty
  URL and for a URL that does not start with \<open>http\<close> it returns null without a fetch;
  when \<open>encodeURIComponent\<close> throws, the exception is caught and null returned.  An
  attempt fails when the fetch rejects (network error, or the abort at the timeout), when
  the response is not OK, when reading the body fails, or when the payload is rejected;
  when both attempts fail, null is returned after the two fetches.
\<close>

theorem downloadFileFromUrl_never_throws:
  "(\<exists>r. outcome (downloadFileFromUrl net now url defaultPrefix) = Inr r) \<and>
   (url = [] \<or> \<not> startsWith url (lit ''http'') \<longrightarrow>
      downloadFileFromUrl net now url defaultPrefix = \<lparr>fetched = [], outcome = Inr None\<rparr>) \<and>
   (encodeURIComponent url = Inl e \<longrightarrow>
      downloadFileFromUrl net now url defaultPrefix = \<lparr>fetched = [], outcome = Inr None\<rparr>) \<and>
   (net u = Inl e \<longrightarrow> tryDownload net u = None) \<and>
   (net u = Inr r \<and> \<not> ok r \<longrightarrow> tryDownload net u = None) \<and>
   (net u = Inr r \<and> ok r \<and> body r = Inl e \<longrightarrow> tryDownload net u = None) \<and>
   (net u = Inr r \<and> ok r \<and> body r = Inr b \<and>
      (includes_str (btype b) (lit ''text/html'') \<or> bsize b < 2000 \<and> error_page_text b)
      \<longrightarrow> tryDownload net u = None) \<and>
   (encodeURIComponent url = Inr enc \<and>
    tryDownload net (lit ''https://corsproxy.io/?'' @ enc) = None \<and>
    tryDownload net (lit ''https://api.allorigins.win/raw?url='' @ enc) = None \<longrightarrow>
      outcome (downloadFileFromUrl net now url defaultPrefix) = Inr None)"
proof -
  have a: "\<exists>r. outcome (downloadFileFromUrl net now url defaultPrefix) = Inr r"
    by (rule download_returns)
  have b: "url = [] \<or> \<not> startsWith url (lit ''http'') \<longrightarrow>
      downloadFileFromUrl net now url defaultPrefix = \<lparr>fetched = [], outcome = Inr None\<rparr>"
    by (auto simp: downloadFileFromUrl_def returns_def)
  have c: "encodeURIComponent url = Inl e \<longrightarrow>
      downloadFileFromUrl net now url defaultPrefix = \<lparr>fetched = [], outcome = Inr None\<rparr>"
    by (auto simp: downloadFileFromUrl_def download_attempts_def returns_def)
  have d: "encodeURIComponent url = Inr enc \<and>
    tryDownload net (lit ''https://corsproxy.io/?'' @ enc) = None \<and>
    tryDownload net (lit ''https://api.allorigins.win/raw?url='' @ enc) = None \<longrightarrow>
      outcome (downloadFileFromUrl net now url defaultPrefix) = Inr None"
    by (auto intro: download_both_fail)
  from a b c d tryDownload_failures [of net u e r b] show ?thesis
    by blast
qed

theorem downloadFileFromUrl_never_throws_witness:
  "\<not> startsWith (lit ''ftp://example.org/a.pdf'') (lit ''http'') \<and>
   downloadFileFromUrl example_network 0 (lit ''ftp://example.org/a.pdf'') (lit ''doc'') =
     \<lparr>fetched = [], outcome = Inr None\<rparr> \<and>
   encodeURIComponent (lit ''http://x/'' @ [0xD800]) = Inl URIError \<and>
   downloadFileFromUrl example_network 0 (lit ''http://x/'' @ [0xD800]) (lit ''doc'') =
     \<lparr>fetched = [], outcome = Inr None\<rparr> \<and>
   example_network (lit ''https://corsproxy.io/?http%3A%2F%2Fexample.org%2Fgone'') = Inl TypeError \<and>
   tryDownload example_network (lit ''https://corsproxy.io/?http%3A%2F%2Fexample.org%2Fgone'') = None"
proof -
  have 1: "\<not> startsWith (lit ''ftp://example.org/a.pdf'') (lit ''http'')"
    by code_simp
  have 2: "encodeURIComponent (lit ''http://x/'' @ [0xD800]) = Inl URIError"
    by code_simp
  have 3: "example_network (lit ''https://corsproxy.io/?http%3A%2F%2Fexample.org%2Fgone'') =
      Inl TypeError"
    by code_simp
  from 1 downloadFileFromUrl_never_throws
    [where net = example_network and now = 0 and url = "lit ''ftp://example.org/a.pdf''"
      and defaultPrefix = "lit ''doc''"]
  have 4: "downloadFileFromUrl example_network 0 (lit ''ftp://example.org/a.pdf'') (lit ''doc'') =
     \<lparr>fetched = [], outcome = Inr None\<rparr>"
    by blast
  from 2 downloadFileFromUrl_never_throws
    [where net = example_network and now = 0 and url = "lit ''http://x/'' @ [0xD800]"
      and defaultPrefix = "lit ''doc''" and e = URIError]
  have 5: "downloadFileFromUrl example_network 0 (lit ''http://x/'' @ [0xD800]) (lit ''doc'') =
     \<lparr>fetched = [], outcome = Inr None\<rparr>"
    by blast
  from 3 downloadFileFromUrl_never_throws
    [where net = example_network and e = TypeError
      and u = "lit ''https://corsproxy.io/?http%3A%2F%2Fexample.org%2Fgone''"]
  have 6: "tryDownload example_network
      (lit ''https://corsproxy.io/?http%3A%2F%2Fexample.org%2Fgone'') = None"
    by blast
  from 1 2 3 4 5 6 show ?thesis
    by blast
qed

text \<open>
  The claim as stated, no fetch for every URL that is not HTTP(S), fails: the function
  tests the prefix \<open>http\<close> only, so \<open>httpx://example.org/a.pdf\<close>, whose scheme is
  neither \<open>http\<close> nor \<open>https\<close>, passes the test and is fetched through both relays.
\<close>

theorem downloadFileFromUrl_fetches_non_http:
  "\<not> is_http_url (lit ''httpx://example.org/a.pdf'') \<and>
   downloadFileFromUrl example_network 0 (lit ''httpx://example.org/a.pdf'') (lit ''doc'') =
     \<lparr>fetched = [lit ''https://corsproxy.io/?httpx%3A%2F%2Fexample.org%2Fa.pdf'',
        lit ''https://api.allorigins.win/raw?url=httpx%3A%2F%2Fexample.org%2Fa.pdf''],
      outcome = Inr None\<rparr>"
  by code_simp

section \<open>Batch link prober\<close>

lemma probe_returns: "probeAndDownloadLink env url = Inr (probe_result env url)"
proof -
  obtain r where "outcome (downloadFileFromUrl (env_net env) (env_clock env url) url (lit ''doc'')) = Inr r"
    using download_returns by blast
  then show ?thesis
    by (simp add: probe_result_def probeAndDownloadLink_def split: option.splits)
qed

lemma promise_all_probe:
  "promise_all (map (probeAndDownloadLink env) batch) = Inr (map (probe_result env) batch)"
  by (induction batch) (simp_all add: probe_returns)

declare probe_loop.simps [simp del]
declare chunks.simps [simp del]

lemma chunks_Nil: "chunks n [] = []"
  by (simp add: chunks.simps)

lemma chunks_step: "n \<noteq> 0 \<Longrightarrow> xs \<noteq> [] \<Longrightarrow> chunks n xs = take n xs # chunks n (drop n xs)"
  by (subst chunks.simps) simp

lemma run_groups_Nil: "run_groups env n st [] = st"
  by (simp add: run_groups_def)

lemma run_groups_Cons:
  "run_groups env n st (g # gs) =
     run_groups env n (after_batch n st g (map (probe_result env) g)) gs"
  by (simp add: run_groups_def)

lemma probe_loop_groups:
  "\<exists>k\<le>length (chunks BATCH_SIZE (drop i u)).
     probe_loop env u i st =
       Inr (run_groups env (length u) st (take k (chunks BATCH_SIZE (drop i u)))) \<and>
     (\<forall>j<k. \<not> both_filled (run_groups env (length u) st (take j (chunks BATCH_SIZE (drop i u))))) \<and>
     (k < length (chunks BATCH_SIZE (drop i u)) \<longrightarrow>
        both_filled (run_groups env (length u) st (take k (chunks BATCH_SIZE (drop i u)))))"
proof (induction env u i st rule: probe_loop.induct)
  case (1 env u i st)
  let ?G = "chunks BATCH_SIZE (drop i u)"
  show ?case
  proof (cases "i < length u")
    case False
    then have "?G = []" by (simp add: chunks_Nil)
    moreover from False have "probe_loop env u i st = Inr st"
      by (subst probe_loop.simps) simp
    ultimately show ?thesis by (simp add: run_groups_Nil)
  next
    case True
    let ?b = "slice u i (i + BATCH_SIZE)"
    let ?R = "chunks BATCH_SIZE (drop (i + BATCH_SIZE) u)"
    from True have G: "?G = ?b # ?R"
      by (simp add: chunks_step slice_def BATCH_SIZE_def add.commute)
    show ?thesis
    proof (cases "admin st \<noteq> None \<and> tech st \<noteq> None")
      case True
      with \<open>i < length u\<close> have "probe_loop env u i st = Inr st"
        by (subst probe_loop.simps) simp
      with True show ?thesis
        by (intro exI [of _ 0]) (simp add: run_groups_Nil both_filled_def)
    next
      case False
      let ?st = "after_batch (length u) st ?b (map (probe_result env) ?b)"
      from False \<open>i < length u\<close>
      have step: "probe_loop env u i st = probe_loop env u (i + BATCH_SIZE) ?st"
        by (subst probe_loop.simps) (auto simp: promise_all_probe Let_def)
      from "1.IH" [OF \<open>i < length u\<close> False refl promise_all_probe]
      obtain k where k: "k \<le> length ?R"
        "probe_loop env u (i + BATCH_SIZE) ?st = Inr (run_groups env (length u) ?st (take k ?R))"
        "\<forall>j<k. \<not> both_filled (run_groups env (length u) ?st (take j ?R))"
        "k < length ?R \<longrightarrow> both_filled (run_groups env (length u) ?st (take k ?R))"
        by blast
      have "\<forall>j<Suc k. \<not> both_filled (run_groups env (length u) st (take j ?G))"
      proof (intro allI impI)
        fix j assume "j < Suc k"
        show "\<not> both_filled (run_groups env (length u) st (take j ?G))"
        proof (cases j)
          case 0
          with False show ?thesis by (simp add: run_groups_Nil both_filled_def)
        next
          case (Suc j')
          with \<open>j < Suc k\<close> k(3) show ?thesis by (simp add: G run_groups_Cons)
        qed
      qed
      with k step show ?thesis
        by (intro exI [of _ "Suc k"]) (simp add: G run_groups_Cons)
    qed
  qed
qed


lemma assign_result_effects:
  "issued (assign_result st r) = issued st"
  "processed (assign_result st r) = processed st"
  "progress (assign_result st r) = progress st"
  by (auto simp: assign_result_def split: option.splits)


lemma foldl_assign_effects:
  "issued (foldl assign_result st rs) = issued st"
  "processed (foldl assign_result st rs) = processed st"
  "progress (foldl assign_result st rs) = progress st"
  by (induction rs arbitrary: st) (simp_all add: assign_result_effects)


lemma after_batch_issued: "issued (after_batch n st g rs) = issued st @ [g]"
  by (simp add: after_batch_def Let_def foldl_assign_effects)


lemma run_groups_issued: "issued (run_groups env n st gs) = issued st @ gs"
  by (induction gs arbitrary: st) (simp_all add: run_groups_Nil run_groups_Cons after_batch_issued)


lemma concat_chunks: "n \<noteq> 0 \<Longrightarrow> concat (chunks n xs) = xs"
proof (induction n xs rule: chunks.induct)
  case (1 n xs)
  then show ?case
    by (cases "xs = []") (simp_all add: chunks_Nil chunks_step)
qed

lemma chunks_sizes: "g \<in> set (chunks n xs) \<Longrightarrow> g \<noteq> [] \<and> length g \<le> n"
proof (induction n xs rule: chunks.induct)
  case (1 n xs)
  show ?case
  proof (cases "n = 0 \<or> xs = []")
    case True
    with "1.prems" show ?thesis by (subst (asm) chunks.simps) simp
  next
    case False
    with "1.prems" have "g = take n xs \<or> g \<in> set (chunks n (drop n xs))"
      by (subst (asm) chunks.simps) simp
    with False "1.IH" show ?thesis by auto
  qed
qed

lemma foldl_set_add: "distinct (acc @ xs) \<Longrightarrow> foldl set_add acc xs = acc @ xs"
  by (induction xs arbitrary: acc) (auto simp: set_add_def)

lemma new_Set_distinct_id: "distinct xs \<Longrightarrow> new_Set xs = xs"
  using foldl_set_add [of "[]" xs] by (simp add: new_Set_def)

lemma foldl_set_add_props:
  "distinct acc \<Longrightarrow> distinct (foldl set_add acc xs) \<and> set (foldl set_add acc xs) = set acc \<union> set xs"
  by (induction xs arbitrary: acc) (auto simp: set_add_def)

lemma new_Set_props: "distinct (new_Set xs) \<and> set (new_Set xs) = set xs"
  using foldl_set_add_props [of "[]" xs] by (simp add: new_Set_def)


lemma length_ten:
  assumes "length (xs :: 'a list) = 10"
  obtains u0 u1 u2 u3 u4 u5 u6 u7 u8 u9 where "xs = [u0, u1, u2, u3, u4, u5, u6, u7, u8, u9]"
proof -
  from assms have "length xs = Suc (Suc (Suc (Suc (Suc (Suc (Suc (Suc (Suc (Suc 0)))))))))"
    by simp
  then show thesis
    by (auto simp: length_Suc_conv intro: that)
qed

lemma probe_scenario:
  assumes d: "distinct links" and rel: "list_all isRelevantLink links"
    and pr: "map (probeAndDownloadLink env) links =
      [Inr None, Inr (Some (fa, ADMIN)), Inr None, Inr None, Inr (Some (ft, TECH)),
       Inr None, Inr None, Inr None, Inr None, Inr None]"
  shows "probeLinksInBatches env links =
     Inr \<lparr>admin = Some fa, tech = Some ft, processed = 8,
          issued = [take 4 links, take 4 (drop 4 links)],
          progress = [(4, 10), (8, 10)]\<rparr>"
proof -
  from pr have "length (map (probeAndDownloadLink env) links) = 10" by simp
  then have "length links = 10" by simp
  then obtain u0 u1 u2 u3 u4 u5 u6 u7 u8 u9
    where l: "links = [u0, u1, u2, u3, u4, u5, u6, u7, u8, u9]"
    by (rule length_ten)
  from rel have "filter isRelevantLink links = links"
    by (simp add: list_all_iff)
  with d have u: "filter isRelevantLink (new_Set links) = links"
    by (simp add: new_Set_distinct_id)
  from pr have p: "map (probeAndDownloadLink env) [u0, u1, u2, u3] =
      [Inr None, Inr (Some (fa, ADMIN)), Inr None, Inr None]"
    "map (probeAndDownloadLink env) [u4, u5, u6, u7] =
      [Inr (Some (ft, TECH)), Inr None, Inr None, Inr None]"
    by (simp_all add: l)
  have n: "Suc (Suc (Suc (Suc 0))) = 4"
    "Suc (Suc (Suc (Suc (Suc (Suc (Suc (Suc (Suc (Suc 0))))))))) = 10" "(4::nat) + 4 = 8"
    by simp_all
  have 1: "probe_loop env links 0
      \<lparr>admin = None, tech = None, processed = 0, issued = [], progress = []\<rparr> =
    probe_loop env links 4
      \<lparr>admin = Some fa, tech = None, processed = 4, issued = [[u0, u1, u2, u3]],
       progress = [(4, 10)]\<rparr>"
    by (subst probe_loop.simps)
      (simp add: l BATCH_SIZE_def slice_def p [simplified] after_batch_def assign_result_def n)
  have 2: "probe_loop env links 4
      \<lparr>admin = Some fa, tech = None, processed = 4, issued = [[u0, u1, u2, u3]],
       progress = [(4, 10)]\<rparr> =
    probe_loop env links 8
      \<lparr>admin = Some fa, tech = Some ft, processed = 8,
       issued = [[u0, u1, u2, u3], [u4, u5, u6, u7]], progress = [(4, 10), (8, 10)]\<rparr>"
    by (subst probe_loop.simps)
      (simp add: l BATCH_SIZE_def slice_def p [simplified] after_batch_def assign_result_def n)
  have 3: "probe_loop env links 8
      \<lparr>admin = Some fa, tech = Some ft, processed = 8,
       issued = [[u0, u1, u2, u3], [u4, u5, u6, u7]], progress = [(4, 10), (8, 10)]\<rparr> =
    Inr \<lparr>admin = Some fa, tech = Some ft, processed = 8,
       issued = [[u0, u1, u2, u3], [u4, u5, u6, u7]], progress = [(4, 10), (8, 10)]\<rparr>"
    by (subst probe_loop.simps) (simp add: l n)
  from 1 2 3 show ?thesis
    by (simp add: probeLinksInBatches_def u) (simp add: l)
qed

lemma chunks_full: "Suc j < length (chunks n xs) \<Longrightarrow> length (chunks n xs ! j) = n"
proof (induction n xs arbitrary: j rule: chunks.induct)
  case (1 n xs)
  show ?case
  proof (cases "n = 0 \<or> xs = []")
    case True
    with "1.prems" show ?thesis by (subst (asm) chunks.simps) simp
  next
    case False
    then have c: "chunks n xs = take n xs # chunks n (drop n xs)"
      by (simp add: chunks_step)
    show ?thesis
    proof (cases j)
      case 0
      with "1.prems" c have "chunks n (drop n xs) \<noteq> []" by auto
      then have "drop n xs \<noteq> []" by (auto simp: chunks_Nil)
      with 0 c show ?thesis by simp
    next
      case (Suc j')
      with "1.prems" c have "Suc j' < length (chunks n (drop n xs))" by simp
      with "1.IH" [OF False] Suc c show ?thesis by simp
    qed
  qed
qed

lemma scenario_probe_0:
  "probeAndDownloadLink scenario_env (lit ''https://example.org/d0'') = Inr None"
  by code_simp

lemma scenario_probe_1:
  "probeAndDownloadLink scenario_env (lit ''https://example.org/d1'') = Inr (Some (scenario_admin, ADMIN))"
  by code_simp

lemma scenario_probe_2:
  "probeAndDownloadLink scenario_env (lit ''https://example.org/d2'') = Inr None"
  by code_simp

lemma scenario_probe_3:
  "probeAndDownloadLink scenario_env (lit ''https://example.org/d3'') = Inr None"
  by code_simp

lemma scenario_probe_4:
  "probeAndDownloadLink scenario_env (lit ''https://example.org/d4'') = Inr (Some (scenario_tech, TECH))"
  by code_simp

lemma scenario_probe_5:
  "probeAndDownloadLink scenario_env (lit ''https://example.org/d5'') = Inr None"
  by code_simp

lemma scenario_probe_6:
  "probeAndDownloadLink scenario_env (lit ''https://example.org/d6'') = Inr None"
  by code_simp

lemma scenario_probe_7:
  "probeAndDownloadLink scenario_env (lit ''https://example.org/d7'') = Inr None"
  by code_simp

lemma scenario_probe_8:
  "probeAndDownloadLink scenario_env (lit ''https://example.org/d8'') = Inr None"
  by code_simp

lemma scenario_probe_9:
  "probeAndDownloadLink scenario_env (lit ''https://example.org/d9'') = Inr None"
  by code_simp


lemma scenario_links_ok: "distinct scenario_links" "list_all isRelevantLink scenario_links"
  by code_simp+

lemma scenario_probes:
  "map (probeAndDownloadLink scenario_env) scenario_links =
     [Inr None, Inr (Some (scenario_admin, ADMIN)), Inr None, Inr None,
      Inr (Some (scenario_tech, TECH)), Inr None, Inr None, Inr None, Inr None, Inr None]"
  by (simp add: scenario_links_def scenario_probe_0 scenario_probe_1 scenario_probe_2
      scenario_probe_3 scenario_probe_4 scenario_probe_5 scenario_probe_6 scenario_probe_7
      scenario_probe_8 scenario_probe_9)

text \<open>
  C1.  The links are deduplicated (first occurrences, in order) and filtered; the run
  issues a prefix of the groups of 4 of that list, one after the other, and returns.  No
  group is issued once both slots are filled: before each issued group the slots are not
  both filled, and when groups are left over, both slots are filled at the end.  With ten
  distinct relevant links of which the second probe alone yields a file (classified ADMIN)
  and the fifth alone yields another (classified TECH), the run issues the first two
  groups, 8 URLs, and no third one.
\<close>

theorem probeLinksInBatches_groups:
  "(let uniq = filter isRelevantLink (new_Set links);
        G = chunks BATCH_SIZE uniq;
        init = \<lparr>admin = None, tech = None, processed = 0, issued = [], progress = []\<rparr>
    in distinct uniq \<and> set uniq = {u \<in> set links. isRelevantLink u} \<and>
       concat G = uniq \<and> (\<forall>j. Suc j < length G \<longrightarrow> length (G ! j) = 4) \<and>
       (\<forall>g\<in>set G. g \<noteq> [] \<and> length g \<le> 4) \<and>
       (\<exists>k\<le>length G. \<exists>st'.
          probeLinksInBatches env links = Inr st' \<and>
          st' = run_groups env (length uniq) init (take k G) \<and>
          issued st' = take k G \<and>
          (\<forall>j<k. \<not> both_filled (run_groups env (length uniq) init (take j G))) \<and>
          (k < length G \<longrightarrow> both_filled st'))) \<and>
   (distinct links \<and> list_all isRelevantLink links \<and>
    map (probeAndDownloadLink env) links =
      [Inr None, Inr (Some (fa, ADMIN)), Inr None, Inr None, Inr (Some (ft, TECH)),
       Inr None, Inr None, Inr None, Inr None, Inr None] \<longrightarrow>
    (\<exists>st'. probeLinksInBatches env links = Inr st' \<and>
       issued st' = [take 4 links, take 4 (drop 4 links)] \<and>
       length (concat (issued st')) = 8 \<and>
       admin st' = Some fa \<and> tech st' = Some ft \<and>
       progress st' = [(4, 10), (8, 10)]))"
proof (rule conjI)
  define uniq where "uniq = filter isRelevantLink (new_Set links)"
  define G where "G = chunks BATCH_SIZE uniq"
  define init where
    "init = \<lparr>admin = None, tech = None, processed = 0, issued = [], progress = []\<rparr>"
  have 1: "distinct uniq \<and> set uniq = {u \<in> set links. isRelevantLink u}"
    using new_Set_props [of links] by (auto simp: uniq_def)
  have 2: "concat G = uniq"
    by (simp add: G_def concat_chunks BATCH_SIZE_def)
  have 3: "\<forall>j. Suc j < length G \<longrightarrow> length (G ! j) = 4"
    using chunks_full [of _ BATCH_SIZE uniq] by (simp add: G_def BATCH_SIZE_def)
  have 4: "\<forall>g\<in>set G. g \<noteq> [] \<and> length g \<le> 4"
    using chunks_sizes [of _ BATCH_SIZE uniq] by (simp add: G_def BATCH_SIZE_def)
  from probe_loop_groups [of 0 uniq env init]
  obtain k where k: "k \<le> length G"
    "probe_loop env uniq 0 init = Inr (run_groups env (length uniq) init (take k G))"
    "\<forall>j<k. \<not> both_filled (run_groups env (length uniq) init (take j G))"
    "k < length G \<longrightarrow> both_filled (run_groups env (length uniq) init (take k G))"
    by (auto simp: G_def)
  have "issued (run_groups env (length uniq) init (take k G)) = take k G"
    by (simp add: run_groups_issued init_def)
  with k have 5: "\<exists>k\<le>length G. \<exists>st'.
          probeLinksInBatches env links = Inr st' \<and>
          st' = run_groups env (length uniq) init (take k G) \<and>
          issued st' = take k G \<and>
          (\<forall>j<k. \<not> both_filled (run_groups env (length uniq) init (take j G))) \<and>
          (k < length G \<longrightarrow> both_filled st')"
    by (intro exI [of _ k]) (simp add: probeLinksInBatches_def uniq_def init_def)
  from 1 2 3 4 5 show "let uniq = filter isRelevantLink (new_Set links);
        G = chunks BATCH_SIZE uniq;
        init = \<lparr>admin = None, tech = None, processed = 0, issued = [], progress = []\<rparr>
    in distinct uniq \<and> set uniq = {u \<in> set links. isRelevantLink u} \<and>
       concat G = uniq \<and> (\<forall>j. Suc j < length G \<longrightarrow> length (G ! j) = 4) \<and>
       (\<forall>g\<in>set G. g \<noteq> [] \<and> length g \<le> 4) \<and>
       (\<exists>k\<le>length G. \<exists>st'.
          probeLinksInBatches env links = Inr st' \<and>
          st' = run_groups env (length uniq) init (take k G) \<and>
          issued st' = take k G \<and>
          (\<forall>j<k. \<not> both_filled (run_groups env (length uniq) init (take j G))) \<and>
          (k < length G \<longrightarrow> both_filled st'))"
    unfolding Let_def uniq_def G_def init_def by blast
next
  show "distinct links \<and> list_all isRelevantLink links \<and>
    map (probeAndDownloadLink env) links =
      [Inr None, Inr (Some (fa, ADMIN)), Inr None, Inr None, Inr (Some (ft, TECH)),
       Inr None, Inr None, Inr None, Inr None, Inr None] \<longrightarrow>
    (\<exists>st'. probeLinksInBatches env links = Inr st' \<and>
       issued st' = [take 4 links, take 4 (drop 4 links)] \<and>
       length (concat (issued st')) = 8 \<and>
       admin st' = Some fa \<and> tech st' = Some ft \<and>
       progress st' = [(4, 10), (8, 10)])"
  proof
    assume h: "distinct links \<and> list_all isRelevantLink links \<and>
      map (probeAndDownloadLink env) links =
        [Inr None, Inr (Some (fa, ADMIN)), Inr None, Inr None, Inr (Some (ft, TECH)),
         Inr None, Inr None, Inr None, Inr None, Inr None]"
    then have "length (map (probeAndDownloadLink env) links) = 10" by simp
    then have "length links = 10" by simp
    moreover from h have "probeLinksInBatches env links =
       Inr \<lparr>admin = Some fa, tech = Some ft, processed = 8,
          issued = [take 4 links, take 4 (drop 4 links)],
          progress = [(4, 10), (8, 10)]\<rparr>"
      by (intro probe_scenario) auto
    ultimately show "\<exists>st'. probeLinksInBatches env links = Inr st' \<and>
       issued st' = [take 4 links, take 4 (drop 4 links)] \<and>
       length (concat (issued st')) = 8 \<and>
       admin st' = Some fa \<and> tech st' = Some ft \<and>
       progress st' = [(4, 10), (8, 10)]"
      by simp
  qed
qed

theorem probeLinksInBatches_groups_witness:
  "distinct scenario_links \<and> list_all isRelevantLink scenario_links \<and>
   (\<exists>st'. probeLinksInBatches scenario_env scenario_links = Inr st' \<and>
      issued st' = [take 4 scenario_links, take 4 (drop 4 scenario_links)] \<and>
      length (concat (issued st')) = 8 \<and>
      admin st' = Some scenario_admin \<and> tech st' = Some scenario_tech)"
  using probeLinksInBatches_groups
    [where env = scenario_env and links = scenario_links and fa = scenario_admin
       and ft = scenario_tech, THEN conjunct2]
    scenario_links_ok scenario_probes
  by auto



text \<open>
  C10.  A result classified ADMIN that meets a filled admin slot leaves the state as it
  is, also when the tech slot is empty, and a result classified TECH that meets a filled
  tech slot does the same; of two ADMIN results in one group the second is dropped.  Only
  a result classified UNKNOWN moves on to the tech slot.
\<close>

theorem classified_result_discarded:
  "(admin st \<noteq> None \<longrightarrow> assign_result st (Some (f, ADMIN)) = st) \<and>
   (tech st \<noteq> None \<longrightarrow> assign_result st (Some (f, TECH)) = st) \<and>
   (admin st = None \<and> tech st = None \<longrightarrow>
      foldl assign_result st [Some (f, ADMIN), Some (g, ADMIN)] = st\<lparr>admin := Some f\<rparr> \<and>
      foldl assign_result st [Some (f, TECH), Some (g, TECH)] = st\<lparr>tech := Some f\<rparr>) \<and>
   (admin st \<noteq> None \<and> tech st = None \<longrightarrow>
      assign_result st (Some (f, UNKNOWN)) = st\<lparr>tech := Some f\<rparr>)"
  by (simp add: assign_result_def)

theorem classified_result_discarded_witness:
  "admin \<lparr>admin = Some scenario_admin, tech = None, processed = 4, issued = [],
      progress = []\<rparr> \<noteq> None \<and>
   assign_result
     \<lparr>admin = Some scenario_admin, tech = None, processed = 4, issued = [], progress = []\<rparr>
     (Some (scenario_tech, ADMIN)) =
   \<lparr>admin = Some scenario_admin, tech = None, processed = 4, issued = [], progress = []\<rparr>"
  using classified_result_discarded
    [where st = "\<lparr>admin = Some scenario_admin, tech = None, processed = 4, issued = [],
        progress = []\<rparr>"
      and f = scenario_tech]
  by simp

section \<open>Web page scraper\<close>

lemma full_url_nonempty:
  assumes "\<not> skipped link" and "\<forall>h b u. url_href br h b = Inr u \<longrightarrow> u \<noteq> []"
  shows "full_url br pageUrl link \<noteq> []"
proof -
  from assms(1) obtain href where h: "a_href link = Some href" "href \<noteq> []"
    by (auto simp: skipped_def split: option.splits)
  show ?thesis
  proof (cases "url_href br href pageUrl")
    case (Inl e)
    with h show ?thesis by (simp add: full_url_def resolveUrl_def or_empty_def)
  next
    case (Inr u)
    with assms(2) have "u \<noteq> []" by blast
    with h Inr show ?thesis by (simp add: full_url_def resolveUrl_def or_empty_def)
  qed
qed

lemma scan_link_skipped: "skipped link \<Longrightarrow> scan_link br pageUrl st link = st"
  by (simp add: scan_link_def)

lemma scan_link_fields:
  assumes "\<not> skipped link"
  shows "potentialPdfs (scan_link br pageUrl st link) =
      potentialPdfs st @ (if isFile (full_url br pageUrl link) then [full_url br pageUrl link] else [])"
    and "adminUrl (scan_link br pageUrl st link) =
      (if falsy (adminUrl st) \<and> isAdmin (link_text link) then Some (full_url br pageUrl link)
       else adminUrl st)"
    and "techUrl (scan_link br pageUrl st link) =
      (if falsy (techUrl st) \<and> isTech (link_text link) then Some (full_url br pageUrl link)
       else techUrl st)"
  using assms by (auto simp: scan_link_def Let_def full_url_def link_text_def)

lemma scanned_simps:
  "scanned [] = []"
  "scanned (link # links) = (if skipped link then scanned links else link # scanned links)"
  by (simp_all add: scanned_def)

lemma scan_fold:
  assumes ne: "\<forall>h b u. url_href br h b = Inr u \<longrightarrow> u \<noteq> []"
    and "adminUrl st \<noteq> Some []" and "techUrl st \<noteq> Some []"
  shows "potentialPdfs (foldl (scan_link br pageUrl) st links) =
      potentialPdfs st @ filter isFile (map (full_url br pageUrl) (scanned links)) \<and>
    adminUrl (foldl (scan_link br pageUrl) st links) =
      (case adminUrl st of
         Some u \<Rightarrow> Some u
       | None \<Rightarrow> map_option (full_url br pageUrl)
           (find (\<lambda>link. isAdmin (link_text link)) (scanned links))) \<and>
    techUrl (foldl (scan_link br pageUrl) st links) =
      (case techUrl st of
         Some u \<Rightarrow> Some u
       | None \<Rightarrow> map_option (full_url br pageUrl)
           (find (\<lambda>link. isTech (link_text link)) (scanned links)))"
  using assms(2,3)
proof (induction links arbitrary: st)
  case Nil
  then show ?case by (simp add: scanned_simps split: option.splits)
next
  case (Cons link links)
  show ?case
  proof (cases "skipped link")
    case True
    with Cons show ?thesis by (simp add: scan_link_skipped scanned_simps cong: option.case_cong)
  next
    case False
    let ?st = "scan_link br pageUrl st link"
    from False ne have f: "full_url br pageUrl link \<noteq> []"
      by (rule full_url_nonempty)
    with False Cons.prems have "adminUrl ?st \<noteq> Some []" "techUrl ?st \<noteq> Some []"
      by (simp_all add: scan_link_fields)
    from Cons.IH [OF this] False Cons.prems show ?thesis
      by (auto simp: scan_link_fields scanned_simps falsy_def split: option.splits)
  qed
qed


lemma find_in_set: "find P xs = Some x \<Longrightarrow> x \<in> set xs"
  by (induction xs) (auto split: if_splits)

lemma backfill_result:
  assumes "adminUrl st \<noteq> Some []" and "techUrl st \<noteq> Some []"
    and "\<forall>x\<in>set (potentialPdfs st). x \<noteq> []"
  shows "adminUrl (backfill st) =
      (case adminUrl st of Some u \<Rightarrow> Some u | None \<Rightarrow> item (potentialPdfs st) 0) \<and>
    techUrl (backfill st) =
      (case techUrl st of Some u \<Rightarrow> Some u | None \<Rightarrow> item (potentialPdfs st) 1)"
proof (cases "potentialPdfs st")
  case Nil
  then show ?thesis
    by (simp add: backfill_def item_def split: option.splits)
next
  case (Cons x xs)
  with assms(3) have "x \<noteq> []" "\<forall>y\<in>set xs. y \<noteq> []" by simp_all
  with assms(1,2) Cons show ?thesis
    by (cases xs) (auto simp: backfill_def item_def falsy_def Let_def split: option.splits)
qed

text \<open>
  C5.  When the page loads, each slot receives the URL of the first anchor, among those
  the scan looks at (anchors without a usable \<open>href\<close> are passed over), whose combined
  string matches the slot's keywords; a slot without a match receives its generic
  \<open>.pdf\<close>/\<open>.zip\<close> link by position, the first for admin and the second for tech.  A
  page with exactly two generic links and no keyword match yields the first as admin URL
  and the second as tech URL.  The URLs that \<open>new URL(...).href\<close> returns are taken to be
  non-empty, as every serialized URL is.
\<close>

theorem scrapeDocsFromWeb_first_match:
  assumes "pageUrl \<noteq> []" and "startsWith pageUrl (lit ''http'')"
    and "encodeURIComponent pageUrl = Inr enc"
    and "net (lit ''https://corsproxy.io/?'' @ enc) = Inr resp" and "ok resp"
    and "response_text resp = Inr html"
    and "\<forall>h b u. url_href br h b = Inr u \<longrightarrow> u \<noteq> []"
  shows
    "scrapeDocsFromWeb br net pageUrl =
       (case find (\<lambda>link. isAdmin (link_text link)) (scanned (parse_anchors br html)) of
          Some link \<Rightarrow> Some (full_url br pageUrl link)
        | None \<Rightarrow>
            item (filter isFile (map (full_url br pageUrl) (scanned (parse_anchors br html)))) 0,
        case find (\<lambda>link. isTech (link_text link)) (scanned (parse_anchors br html)) of
          Some link \<Rightarrow> Some (full_url br pageUrl link)
        | None \<Rightarrow>
            item (filter isFile (map (full_url br pageUrl) (scanned (parse_anchors br html)))) 1) \<and>
     (list_all (\<lambda>link. \<not> isAdmin (link_text link) \<and> \<not> isTech (link_text link))
        (scanned (parse_anchors br html)) \<and>
      filter isFile (map (full_url br pageUrl) (scanned (parse_anchors br html))) = [p, q] \<longrightarrow>
        scrapeDocsFromWeb br net pageUrl = (Some p, Some q))"
proof -
  define links where "links = scanned (parse_anchors br html)"
  define pdfs where "pdfs = filter isFile (map (full_url br pageUrl) links)"
  define st where "st = foldl (scan_link br pageUrl)
      \<lparr>adminUrl = None, techUrl = None, potentialPdfs = []\<rparr> (parse_anchors br html)"
  from assms have run: "scrapeDocsFromWeb br net pageUrl =
      (adminUrl (backfill st), techUrl (backfill st))"
    by (simp add: scrapeDocsFromWeb_def scrape_body_def st_def Let_def)
  from scan_fold [OF assms(7), of "\<lparr>adminUrl = None, techUrl = None, potentialPdfs = []\<rparr>"
      pageUrl "parse_anchors br html"]
  have f: "potentialPdfs st = pdfs"
    "adminUrl st = map_option (full_url br pageUrl) (find (\<lambda>link. isAdmin (link_text link)) links)"
    "techUrl st = map_option (full_url br pageUrl) (find (\<lambda>link. isTech (link_text link)) links)"
    by (simp_all add: st_def pdfs_def links_def)
  have ne: "full_url br pageUrl link \<noteq> []" if "link \<in> set links" for link
    using that assms(7) by (intro full_url_nonempty) (auto simp: links_def scanned_def)
  have a: "adminUrl st \<noteq> Some []"
    using ne by (auto simp: f(2) dest!: find_in_set)
  have t: "techUrl st \<noteq> Some []"
    using ne by (auto simp: f(3) dest!: find_in_set)
  have "\<forall>x\<in>set (potentialPdfs st). x \<noteq> []"
    using ne by (auto simp: f(1) pdfs_def)
  from backfill_result [OF a t this]
  have res: "scrapeDocsFromWeb br net pageUrl =
      (case find (\<lambda>link. isAdmin (link_text link)) links of
         Some link \<Rightarrow> Some (full_url br pageUrl link) | None \<Rightarrow> item pdfs 0,
       case find (\<lambda>link. isTech (link_text link)) links of
         Some link \<Rightarrow> Some (full_url br pageUrl link) | None \<Rightarrow> item pdfs 1)"
    by (simp add: run f split: option.splits)
  have "scrapeDocsFromWeb br net pageUrl = (Some p, Some q)"
    if "list_all (\<lambda>link. \<not> isAdmin (link_text link) \<and> \<not> isTech (link_text link)) links"
      and "pdfs = [p, q]"
  proof -
    from that(1) have "find (\<lambda>link. isAdmin (link_text link)) links = None"
      "find (\<lambda>link. isTech (link_text link)) links = None"
      by (simp_all add: find_None_iff list_all_iff)
    with res that(2) show ?thesis by (simp add: item_def)
  qed
  with res show ?thesis
    unfolding links_def pdfs_def by blast
qed

lemma example_page_facts:
  "lit ''https://example.org/licitacion'' \<noteq> []"
  "startsWith (lit ''https://example.org/licitacion'') (lit ''http'')"
  "encodeURIComponent (lit ''https://example.org/licitacion'') =
     Inr (lit ''https%3A%2F%2Fexample.org%2Flicitacion'')"
  by code_simp+

lemma example_page_served:
  "page_network (lit ''https://corsproxy.io/?'' @ lit ''https%3A%2F%2Fexample.org%2Flicitacion'') =
     Inr \<lparr>ok = True, content_disposition = None,
       body = Inr \<lparr>btype = lit ''text/html'', bsize = 120, btext = Inr generic_html\<rparr>\<rparr>"
proof -
  have "lit ''https://corsproxy.io/?'' @ lit ''https%3A%2F%2Fexample.org%2Flicitacion'' =
      lit ''https://corsproxy.io/?https%3A%2F%2Fexample.org%2Flicitacion''"
    by (simp add: lit_def)
  then show ?thesis
    by (simp add: page_network_def)
qed


lemma generic_page_scanned: "scanned generic_page = generic_page"
  by code_simp


lemma generic_page_no_keyword:
  "list_all (\<lambda>link. \<not> isAdmin (link_text link) \<and> \<not> isTech (link_text link)) generic_page"
  by code_simp

lemma generic_page_files:
  "filter isFile (map (full_url example_browser (lit ''https://example.org/licitacion''))
     generic_page) =
   [lit ''https://example.org/files/doc1.pdf'', lit ''https://example.org/files/doc2.pdf'']"
  by code_simp


theorem scrapeDocsFromWeb_first_match_witness:
  "scrapeDocsFromWeb example_browser page_network (lit ''https://example.org/licitacion'') =
     (Some (lit ''https://example.org/files/doc1.pdf''),
      Some (lit ''https://example.org/files/doc2.pdf''))"
proof -
  have p: "parse_anchors example_browser generic_html = generic_page"
    by (simp add: example_browser_def)
  have u: "\<forall>h b u. url_href example_browser h b = Inr u \<longrightarrow> u \<noteq> []"
    by (simp add: example_browser_def)
  have r: "response_text \<lparr>ok = True, content_disposition = None,
       body = Inr \<lparr>btype = lit ''text/html'', bsize = 120, btext = Inr generic_html\<rparr>\<rparr> =
     Inr generic_html"
    by (simp add: response_text_def)
  have k: "ok \<lparr>ok = True, content_disposition = None,
       body = Inr \<lparr>btype = lit ''text/html'', bsize = 120, btext = Inr generic_html\<rparr>\<rparr>"
    by simp
  from scrapeDocsFromWeb_first_match
    [where br = example_browser and net = page_network and html = generic_html
      and p = "lit ''https://example.org/files/doc1.pdf''"
      and q = "lit ''https://example.org/files/doc2.pdf''",
      OF example_page_facts(1) example_page_facts(2) example_page_facts(3)
        example_page_served k r u, THEN conjunct2]
    generic_page_no_keyword generic_page_files
  show ?thesis
    by (simp add: p generic_page_scanned)
qed

section \<open>Metadata extraction\<close>

text \<open>
  C6 (as amended).  With an API key and a readable file: when the service call rejects,
  or answers with a non-empty text that \<open>JSON.parse\<close> rejects, the error reaches the
  caller; when the response has no text, or the empty text, the function returns the
  record of six empty fields.
\<close>

theorem extractMetadata_errors:
  assumes "getAiClient env = Inr ai" and "fileToPart env f = Inr filePart"
  shows
    "(generateContent env filePart = Inl e \<longrightarrow> extractMetadataFromTenderFile env f = Inl e) \<and>
     (generateContent env filePart = Inr (Some t) \<and> t \<noteq> [] \<and> JSON_parse env t = Inl e \<longrightarrow>
        extractMetadataFromTenderFile env f = Inl e) \<and>
     (generateContent env filePart = Inr None \<or> generateContent env filePart = Inr (Some []) \<longrightarrow>
        extractMetadataFromTenderFile env f = Inr empty_metadata)"
  using assms
  by (auto simp: extractMetadataFromTenderFile_def extract_body_def split: sum.splits)

lemma example_services:
  "getAiClient garbled_service = Inr (lit ''key'')"
  "getAiClient silent_service = Inr (lit ''key'')"
  "literal_parse (lit ''<html>Bad Gateway</html>'') = Inl SyntaxError"
  "lit ''<html>Bad Gateway</html>'' \<noteq> []"
  by code_simp+

theorem extractMetadata_errors_witness:
  "generateContent garbled_service (lit ''JVBERi0='') = Inr (Some (lit ''<html>Bad Gateway</html>'')) \<and>
   JSON_parse garbled_service (lit ''<html>Bad Gateway</html>'') = Inl SyntaxError \<and>
   extractMetadataFromTenderFile garbled_service
     \<lparr>name = lit ''hoja.pdf'', ftype = lit ''application/pdf'', fsize = 3000\<rparr> = Inl SyntaxError"
proof -
  have g: "generateContent garbled_service (lit ''JVBERi0='') =
      Inr (Some (lit ''<html>Bad Gateway</html>''))"
    by (simp add: garbled_service_def)
  have j: "JSON_parse garbled_service (lit ''<html>Bad Gateway</html>'') = Inl SyntaxError"
    by (simp add: garbled_service_def example_services(3))
  have r: "fileToPart garbled_service
      \<lparr>name = lit ''hoja.pdf'', ftype = lit ''application/pdf'', fsize = 3000\<rparr> =
      Inr (lit ''JVBERi0='')"
    by (simp add: garbled_service_def)
  from extractMetadata_errors [OF example_services(1) r, where e = SyntaxError
      and t = "lit ''<html>Bad Gateway</html>''", THEN conjunct2, THEN conjunct1]
    g j example_services(4)
  have "extractMetadataFromTenderFile garbled_service
     \<lparr>name = lit ''hoja.pdf'', ftype = lit ''application/pdf'', fsize = 3000\<rparr> = Inl SyntaxError"
    by blast
  with g j show ?thesis
    by blast
qed

text \<open>
  The claim as stated fails for missing response text: the function then returns the
  record of empty fields to its caller, and no error.
\<close>

theorem extractMetadata_missing_text:
  "generateContent silent_service (lit ''JVBERi0='') = Inr None \<and>
   extractMetadataFromTenderFile silent_service
     \<lparr>name = lit ''hoja.pdf'', ftype = lit ''application/pdf'', fsize = 3000\<rparr> =
     Inr empty_metadata"
proof -
  have g: "generateContent silent_service (lit ''JVBERi0='') = Inr None"
    by (simp add: silent_service_def)
  have r: "fileToPart silent_service
      \<lparr>name = lit ''hoja.pdf'', ftype = lit ''application/pdf'', fsize = 3000\<rparr> =
      Inr (lit ''JVBERi0='')"
    by (simp add: silent_service_def)
  show ?thesis
    by (simp add: extractMetadataFromTenderFile_def extract_body_def example_services(2) g r)
qed

end
